theory Spec2Isabelle
  imports Complex_Main "HOL-Library.Product_Lexorder" "HOL-Library.Multiset" "HOL-Library.Log_Nat"
begin

section \<open>Period calendar\<close>

text \<open>
  The server builds every calendar fact from the ECMAScript \<^verbatim>\<open>Date\<close> object in UTC.
  The model follows the ECMAScript definitions of the operations the server calls:
  \<^item> \<^verbatim>\<open>Date.UTC(year, monthIndex, date)\<close> reads a year in 0..99 as 1900 + year
    (\<open>MakeFullYear\<close>), carries a month index outside 0..11 into the year and counts days
    from 1970-01-01 (\<open>MakeDay\<close>, \<open>DayFromYear\<close>);
  \<^item> calendar numbers are mathematical integers: every one of them, the milliseconds of a
    time value included, lies below \<open>2^53\<close>, where the doubles of JavaScript are exact; years
    are taken inside the range of ECMAScript time values (about 271820 BC to AD 275760),
    where \<^verbatim>\<open>Date.UTC\<close> is a number and not NaN.
\<close>

definition MakeFullYear :: "int \<Rightarrow> int" where
  "MakeFullYear y = (if 0 \<le> y \<and> y \<le> 99 then 1900 + y else y)"

definition InLeapYear :: "int \<Rightarrow> bool" where
  "InLeapYear y = (y mod 4 = 0 \<and> (y mod 100 \<noteq> 0 \<or> y mod 400 = 0))"

text \<open>Length of the 1-based month \<open>m\<close> of the (proleptic Gregorian) year \<open>y\<close>.\<close>

definition DaysInMonth :: "int \<Rightarrow> int \<Rightarrow> int" where
  "DaysInMonth y m =
     (if m = 2 then (if InLeapYear y then 29 else 28)
      else if m = 4 \<or> m = 6 \<or> m = 9 \<or> m = 11 then 30
      else 31)"

text \<open>ECMAScript \<open>DayFromYear\<close>: the day number of January 1st of year \<open>y\<close>.\<close>

definition DayFromYear :: "int \<Rightarrow> int" where
  "DayFromYear y =
     365 * (y - 1970) + (y - 1969) div 4 - (y - 1901) div 100 + (y - 1601) div 400"

text \<open>Days of year \<open>y\<close> that precede the first day of the month with 0-based index \<open>mn\<close>.\<close>

definition daysBeforeMonth :: "int \<Rightarrow> int \<Rightarrow> int" where
  "daysBeforeMonth y mn = (\<Sum>k \<leftarrow> [1..mn]. DaysInMonth y k)"

text \<open>
  ECMAScript \<open>MakeDay\<close>: the day number of the first day of the month with 0-based index
  \<open>month\<close> of \<open>year\<close>, plus \<open>date - 1\<close>.
\<close>

definition MakeDay :: "int \<Rightarrow> int \<Rightarrow> int \<Rightarrow> int" where
  "MakeDay year month date =
     (let ym = year + month div 12; mn = month mod 12
      in DayFromYear ym + daysBeforeMonth ym mn + date - 1)"

definition msPerDay :: int where
  "msPerDay = 86400000"

definition Date_UTC :: "int \<Rightarrow> int \<Rightarrow> int \<Rightarrow> int" where
  "Date_UTC year month date = MakeDay (MakeFullYear year) month date * msPerDay"

text \<open>
  \<^verbatim>\<open>function getDaysInMonth(year, month) {
    return new Date(Date.UTC(year, month, 0)).getUTCDate(); }\<close>
  \<open>month\<close> is 1-based here, so as a 0-based index it names the month after, and day 0 of that
  month is the last day of month \<open>month\<close>; \<^verbatim>\<open>getUTCDate\<close> reads its day of the month,
  which is the length of the month it lies in. For index 12 (and every multiple of 12) that
  month is the December before the carried year.
\<close>

definition getDaysInMonth :: "int \<Rightarrow> int \<Rightarrow> int" where
  "getDaysInMonth year month =
     (let yr = MakeFullYear year; ym = yr + month div 12; mn = month mod 12
      in if mn = 0 then DaysInMonth (ym - 1) 12 else DaysInMonth ym mn)"

text \<open>\<^verbatim>\<open>function utcMidnightMs(year, month, day) { return Date.UTC(year, month - 1, day); }\<close>\<close>

definition utcMidnightMs :: "int \<Rightarrow> int \<Rightarrow> int \<Rightarrow> int" where
  "utcMidnightMs year month day = Date_UTC year (month - 1) day"

text \<open>\<^verbatim>\<open>getPreviousMonth\<close>: the month before, with the year boundary.\<close>

definition getPreviousMonth :: "int \<Rightarrow> int \<Rightarrow> int \<times> int" where
  "getPreviousMonth year month = (if month = 1 then (year - 1, 12) else (year, month - 1))"

subsection \<open>Numbers as text\<close>

text \<open>
  \<^verbatim>\<open>String(n)\<close> of an integer below \<open>10^21\<close> in absolute value is its decimal expansion,
  and \<^verbatim>\<open>s.padStart(2, '0')\<close> puts zeros in front of a text shorter than two characters.
\<close>

definition digitChar :: "nat \<Rightarrow> char" where
  "digitChar d = char_of (48 + d)"

fun showNat :: "nat \<Rightarrow> string" where
  "showNat n = (if n < 10 then [digitChar n] else showNat (n div 10) @ [digitChar (n mod 10)])"

declare showNat.simps [simp del]

definition String_of :: "int \<Rightarrow> string" where
  "String_of n = (if n < 0 then CHR ''-'' # showNat (nat (- n)) else showNat (nat n))"

definition padStart2 :: "string \<Rightarrow> string" where
  "padStart2 s = replicate (2 - length s) CHR ''0'' @ s"

definition pad :: "int \<Rightarrow> string" where
  "pad n = padStart2 (String_of n)"

subsection \<open>Blocking future selections\<close>

text \<open>
  \<^verbatim>\<open>validateNotFutureSelection(year, month, day)\<close> reads the clock first; the model takes
  the three UTC fields it reads as a record. An argument that is not a finite number
  (\<^verbatim>\<open>null\<close> when the query parameter is absent, \<^verbatim>\<open>NaN\<close> when it does not parse) is \<open>None\<close>.
\<close>

record utc_clock =
  todayYear :: int
  todayMonth :: int
  todayDay :: int

datatype reject_code = INVALID_DATE | FUTURE_DATE

datatype validation = Ok | Rejected reject_code string

definition validateNotFutureSelection ::
    "utc_clock \<Rightarrow> int option \<Rightarrow> int option \<Rightarrow> int option \<Rightarrow> validation" where
  "validateNotFutureSelection now yearArg monthArg dayArg =
     (case (yearArg, monthArg) of
        (Some year, Some month) \<Rightarrow>
          if month < 1 \<or> month > 12 then Rejected INVALID_DATE ''month out of range (1-12)''
          else if year > todayYear now \<or> (year = todayYear now \<and> month > todayMonth now)
            then Rejected FUTURE_DATE ''Future months/years are not allowed''
          else (case dayArg of
             Some day \<Rightarrow>
               (let dim = getDaysInMonth year month in
                if day < 1 \<or> day > dim
                  then Rejected INVALID_DATE (''day out of range (1-'' @ String_of dim @ '')'')
                else (let selected = utcMidnightMs year month day;
                          today = utcMidnightMs (todayYear now) (todayMonth now) (todayDay now)
                      in if selected > today
                           then Rejected FUTURE_DATE ''Future dates are not allowed''
                         else Ok))
           | None \<Rightarrow> Ok)
      | _ \<Rightarrow>
          (case dayArg of
             Some day \<Rightarrow> Rejected INVALID_DATE ''day requires year and month''
           | None \<Rightarrow> Ok))"

section \<open>Numbers\<close>

text \<open>
  A JavaScript number is an IEEE 754 binary64 value, and every \<^verbatim>\<open>+\<close>, \<^verbatim>\<open>-\<close>, \<^verbatim>\<open>*\<close> and \<^verbatim>\<open>/\<close>
  of the program rounds the exact result to the nearest such value, to the one with an even
  significand when two are equally near. A decimal literal denotes the value nearest to it.

  The model takes a finite double as the rational number it is. \<open>binary64 q\<close> is the double
  nearest to \<open>q\<close>, with a significand of 53 bits. The exponent is not bounded in the model:
  the overflow to \<^verbatim>\<open>Infinity\<close> (from \<open>2^1024\<close> on) and the coarser subnormal numbers (below
  \<open>2^-1022\<close>) are left out, as are energies that are \<^verbatim>\<open>NaN\<close> or infinite. Metered energies
  and their sums and products with day counts are far inside this range.
\<close>

definition roundTiesToEven :: "rat \<Rightarrow> int" where
  "roundTiesToEven q =
     (let n = \<lfloor>q\<rfloor>; r = q - of_int n
      in if r < 1 / 2 then n else if 1 / 2 < r then n + 1 else if even n then n else n + 1)"

text \<open>The exponent \<open>e\<close> with \<open>2^e \<le> |q| < 2^(e+1)\<close>, for \<open>q\<close> other than 0.\<close>

definition binaryExponent :: "rat \<Rightarrow> int" where
  "binaryExponent q =
     (case quotient_of \<bar>q\<bar> of (a, b) \<Rightarrow>
        let k = bitlen a - bitlen b in if 2 powi k \<le> \<bar>q\<bar> then k else k - 1)"

definition binary64 :: "rat \<Rightarrow> rat" where
  "binary64 q =
     (if q = 0 then 0
      else let u = 2 powi (binaryExponent q - 52) in of_int (roundTiesToEven (q / u)) * u)"

text \<open>
  The four operations on finite doubles. The program divides by a day count or by the
  length of a month only, which are not 0 wherever \<open>divide64\<close> is used; the quotient with a
  divisor that may be 0 is \<open>js_div\<close> below.
\<close>

definition plus64 :: "rat \<Rightarrow> rat \<Rightarrow> rat" where
  "plus64 a b = binary64 (a + b)"

definition minus64 :: "rat \<Rightarrow> rat \<Rightarrow> rat" where
  "minus64 a b = binary64 (a - b)"

definition times64 :: "rat \<Rightarrow> rat \<Rightarrow> rat" where
  "times64 a b = binary64 (a * b)"

definition divide64 :: "rat \<Rightarrow> rat \<Rightarrow> rat" where
  "divide64 a b = binary64 (a / b)"

section \<open>Confidence scorer\<close>

text \<open>
  A quotient of two JavaScript numbers is a number, \<^verbatim>\<open>Infinity\<close>, \<^verbatim>\<open>-Infinity\<close> or
  \<^verbatim>\<open>NaN\<close>: division never throws. Comparisons with \<^verbatim>\<open>NaN\<close> are false.
\<close>

datatype jsnum = Num rat | PosInfinity | NegInfinity | NaN

definition js_div :: "rat \<Rightarrow> rat \<Rightarrow> jsnum" where
  "js_div a b =
     (if b = 0 then (if a = 0 then NaN else if 0 < a then PosInfinity else NegInfinity)
      else Num (divide64 a b))"

text \<open>Multiplication by a positive finite constant.\<close>

fun js_scale :: "jsnum \<Rightarrow> rat \<Rightarrow> jsnum" where
  "js_scale (Num x) c = Num (times64 x c)"
| "js_scale v c = v"

fun js_eq :: "jsnum \<Rightarrow> rat \<Rightarrow> bool" where
  "js_eq (Num x) c = (x = c)"
| "js_eq v c = False"

fun js_ge :: "jsnum \<Rightarrow> rat \<Rightarrow> bool" where
  "js_ge (Num x) c = (c \<le> x)"
| "js_ge PosInfinity c = True"
| "js_ge v c = False"

text \<open>The order of two results of such a computation, as \<^verbatim>\<open><=\<close> decides it.\<close>

fun js_le :: "jsnum \<Rightarrow> jsnum \<Rightarrow> bool" where
  "js_le NaN q = False"
| "js_le p NaN = False"
| "js_le NegInfinity q = True"
| "js_le p PosInfinity = True"
| "js_le (Num x) (Num y) = (x \<le> y)"
| "js_le p q = False"

datatype level =
  exact | very_high | high | medium | medium_hybrid | low_hybrid | low | very_low

record confidence =
  level :: level
  score :: nat
  description :: string
  enhancement :: "string option"
  warning :: "string option"

text \<open>\<^verbatim>\<open>const percentComplete = (daysAnalyzed / totalDays) * 100;\<close>\<close>

definition percentCompleteOf :: "int \<Rightarrow> int \<Rightarrow> jsnum" where
  "percentCompleteOf daysAnalyzed totalDays =
     js_scale (js_div (of_int daysAnalyzed) (of_int totalDays)) 100"

definition calculateConfidenceHybrid :: "int \<Rightarrow> int \<Rightarrow> bool \<Rightarrow> bool \<Rightarrow> confidence" where
  "calculateConfidenceHybrid daysAnalyzed totalDays isHybridMode hasPreviousData =
     (let percentComplete = percentCompleteOf daysAnalyzed totalDays in
      if js_eq percentComplete 100 then
        \<lparr>level = exact, score = 100, description = ''Complete month data - actual value'',
         enhancement = None, warning = None\<rparr>
      else if js_ge percentComplete 80 then
        \<lparr>level = very_high, score = 90, description = ''Near-complete month data'',
         enhancement = None, warning = None\<rparr>
      else if js_ge percentComplete 50 then
        \<lparr>level = high, score = 80, description = ''Majority of month data available'',
         enhancement = None, warning = None\<rparr>
      else if js_ge percentComplete 25 then
        \<lparr>level = medium, score = 65, description = ''Moderate data available'',
         enhancement = None, warning = None\<rparr>
      else if isHybridMode \<and> hasPreviousData then
        (if daysAnalyzed = 2 then
           \<lparr>level = medium_hybrid, score = 55,
            description = ''2 days + previous month hybrid - improved accuracy'',
            enhancement = Some ''Confidence boosted by previous month data'', warning = None\<rparr>
         else
           \<lparr>level = low_hybrid, score = 45,
            description = ''1 day + previous month hybrid - stabilized prediction'',
            enhancement = Some ''Confidence boosted by previous month data'', warning = None\<rparr>)
      else if daysAnalyzed = 2 then
        \<lparr>level = low, score = 35, description = ''Only 2 days - limited reliability'',
         enhancement = None, warning = Some ''Previous month data unavailable''\<rparr>
      else
        \<lparr>level = very_low, score = 25,
         description = ''Only '' @ String_of daysAnalyzed @ '' day(s) - minimal reliability'',
         enhancement = None, warning = Some ''Previous month data unavailable''\<rparr>)"

section \<open>Adaptive weight\<close>

text \<open>
  \<^verbatim>\<open>const weights = { 1: 0.30, 2: 0.50 }; return weights[daysAnalyzed] || 0.30;\<close>
  Both table entries are non-zero, hence truthy, so the default applies to a missing key only.
  The table holds the decimal literals; the number that the program computes with is the
  \<open>binary64\<close> of the entry.
\<close>

definition weights :: "int \<rightharpoonup> rat" where
  "weights = [1 \<mapsto> 0.30, 2 \<mapsto> 0.50]"

definition calculateCurrentMonthWeight :: "int \<Rightarrow> rat" where
  "calculateCurrentMonthWeight daysAnalyzed =
     (case weights daysAnalyzed of Some w \<Rightarrow> (if w = 0 then 0.30 else w) | None \<Rightarrow> 0.30)"

section \<open>Daily series\<close>

text \<open>
  A date text \<^verbatim>\<open>'YYYY-MM-DD'\<close> is modelled by the three numbers that
  \<^verbatim>\<open>date.split('-').map(Number)\<close> reads from it; on such zero-padded texts the order of
  \<^verbatim>\<open>localeCompare\<close> is the lexicographic order of the triples. A raw reading carries the
  date and the hour that \<^verbatim>\<open>parseTimestamp\<close> reads from its timestamp, and
  \<open>energy_consumed_kwh\<close> is the value of \<^verbatim>\<open>parseFloat(row.energy_consumed_kwh) || 0\<close>.
\<close>

type_synonym ymd = "int \<times> int \<times> int"

record reading =
  meter_id :: string
  ts_date :: ymd
  ts_hour :: int
  energy_consumed_kwh :: rat

record hourly =
  h_date :: ymd
  h_hour :: int
  h_energyKwh :: rat
  h_count :: nat

record daily =
  date :: ymd
  energyKwh :: rat
  hoursCount :: nat

text \<open>
  \<^verbatim>\<open>calculateHourlyTotals\<close> keeps one object per hour key, created with energy 0 and count
  0 at the first reading of the hour, adds every reading to it, and sorts the objects by
  their key. \<^verbatim>\<open>Object.values\<close> lists them in order of creation.
\<close>

fun addReading :: "reading \<Rightarrow> hourly list \<Rightarrow> hourly list" where
  "addReading row [] =
     [\<lparr>h_date = ts_date row, h_hour = ts_hour row,
       h_energyKwh = plus64 0 (energy_consumed_kwh row), h_count = 0 + 1\<rparr>]"
| "addReading row (h # hs) =
     (if (h_date h, h_hour h) = (ts_date row, ts_hour row)
      then h\<lparr>h_energyKwh := plus64 (h_energyKwh h) (energy_consumed_kwh row),
             h_count := h_count h + 1\<rparr> # hs
      else h # addReading row hs)"

definition calculateHourlyTotals :: "reading list \<Rightarrow> hourly list" where
  "calculateHourlyTotals meterData =
     sort_key (\<lambda>h. (h_date h, h_hour h))
       (foldl (\<lambda>hourlyData row. addReading row hourlyData) [] meterData)"

fun addHour :: "hourly \<Rightarrow> daily list \<Rightarrow> daily list" where
  "addHour hr [] =
     [\<lparr>date = h_date hr, energyKwh = plus64 0 (h_energyKwh hr), hoursCount = 0 + 1\<rparr>]"
| "addHour hr (d # ds) =
     (if date d = h_date hr
      then d\<lparr>energyKwh := plus64 (energyKwh d) (h_energyKwh hr),
             hoursCount := hoursCount d + 1\<rparr> # ds
      else d # addHour hr ds)"

definition calculateDailyTotals :: "hourly list \<Rightarrow> daily list" where
  "calculateDailyTotals hourlyData =
     sort_key date (foldl (\<lambda>dailyData hr. addHour hr dailyData) [] hourlyData)"

section \<open>Loading the previous month\<close>

text \<open>
  \<^verbatim>\<open>fetchReadingsInRange(start, end, meterId)\<close> queries the database. The model takes it
  as a parameter: \<open>None\<close> when the call throws (or yields no array), the rows otherwise.
\<close>

type_synonym fetcher = "ymd \<Rightarrow> ymd \<Rightarrow> string \<Rightarrow> reading list option"

definition getMonthRange :: "int \<Rightarrow> int \<Rightarrow> ymd \<times> ymd" where
  "getMonthRange year month =
     (let nextMonth = (if month = 12 then 1 else month + 1);
          nextYear = (if month = 12 then year + 1 else year)
      in ((year, month, 1), (nextYear, nextMonth, 1)))"

text \<open>\<^verbatim>\<open>const dataCompleteness = (dailyData.length / daysInMonth) * 100;\<close>\<close>

definition dataCompleteness :: "daily list \<Rightarrow> int \<Rightarrow> rat" where
  "dataCompleteness dailyData daysInMonth =
     times64 (divide64 (of_nat (length dailyData)) (of_int daysInMonth)) 100"

definition loadPreviousMonthData :: "fetcher \<Rightarrow> int \<Rightarrow> int \<Rightarrow> string \<Rightarrow> daily list option" where
  "loadPreviousMonthData fetchReadingsInRange year month meterId =
     (let range = getMonthRange year month in
      case fetchReadingsInRange (fst range) (snd range) meterId of
        None \<Rightarrow> None
      | Some rawData \<Rightarrow>
          if rawData = [] then None
          else (let hourlyData = calculateHourlyTotals rawData;
                    dailyData = calculateDailyTotals hourlyData;
                    daysInMonth = getDaysInMonth year month
                in if dataCompleteness dailyData daysInMonth < 50 then None
                   else Some dailyData))"

section \<open>Monthly prediction\<close>

definition MIN_DAYS_REQUIRED :: nat where
  "MIN_DAYS_REQUIRED = 1"

definition HYBRID_THRESHOLD :: nat where
  "HYBRID_THRESHOLD = 3"

text \<open>
  \<^verbatim>\<open>x.toFixed(f)\<close> prints the decimal with \<open>f\<close> fraction digits nearest to the double \<open>x\<close>,
  the larger in magnitude of two equally near ones, after the sign; \<open>toFixedDigits\<close> is the
  integer that its digits spell. From \<open>10^21\<close> on \<^verbatim>\<open>toFixed\<close> prints the number itself.
  \<open>toFixedValue\<close> is the number that the text shows, and \<open>toFixed\<close> is
  \<^verbatim>\<open>parseFloat(x.toFixed(f))\<close>, the double nearest to it.
\<close>

definition toFixedDigits :: "nat \<Rightarrow> rat \<Rightarrow> int" where
  "toFixedDigits f x = \<lfloor>\<bar>x\<bar> * 10 ^ f + 1 / 2\<rfloor>"

definition toFixedValue :: "nat \<Rightarrow> rat \<Rightarrow> rat" where
  "toFixedValue f x =
     (if 10 ^ 21 \<le> \<bar>x\<bar> then x else sgn x * (of_int (toFixedDigits f x) / 10 ^ f))"

definition toFixed :: "nat \<Rightarrow> rat \<Rightarrow> rat" where
  "toFixed f x =
     (if 10 ^ 21 \<le> \<bar>x\<bar> then x else sgn x * binary64 (of_int (toFixedDigits f x) / 10 ^ f))"

datatype valueSource = actual | projection

datatype predictionMode = mode_standard | mode_hybrid | mode_standard_fallback

record previousMonthStats =
  pm_year :: int
  pm_month :: int
  pm_daysUsed :: nat
  pm_totalDays :: int
  pm_totalEnergy :: rat
  pm_avgDaily :: rat

record currentMonthStats =
  cm_daysUsed :: nat
  cm_totalEnergy :: rat
  cm_avgDaily :: rat

record weightPair =
  current :: rat
  previous :: rat

text \<open>
  The hybrid metadata object has one of two shapes, told apart by its \<^verbatim>\<open>mode\<close> field:
  \<open>HybridMeta previousMonth currentMonth weights hybridAvgDaily improvement\<close> and
  \<open>FallbackMeta reason warning\<close>.
\<close>

datatype hybridMetadata =
  HybridMeta previousMonthStats currentMonthStats weightPair rat string
| FallbackMeta string string

fun metadataMode :: "hybridMetadata \<Rightarrow> predictionMode" where
  "metadataMode (HybridMeta pm cm w a i) = mode_hybrid"
| "metadataMode (FallbackMeta r w) = mode_standard_fallback"

fun hasPreviousMonth :: "hybridMetadata option \<Rightarrow> bool" where
  "hasPreviousMonth (Some (HybridMeta pm cm w a i)) = True"
| "hasPreviousMonth m = False"

text \<open>
  Step 2: the requested period, or the period of the latest entry when
  \<^verbatim>\<open>!year || !month\<close>, that is when one of the two is \<^verbatim>\<open>null\<close> or 0.
\<close>

definition targetPeriod :: "daily list \<Rightarrow> int option \<Rightarrow> int option \<Rightarrow> int \<times> int" where
  "targetPeriod dailyData targetYear targetMonth =
     (case (targetYear, targetMonth) of
        (Some y, Some m) \<Rightarrow>
          if y = 0 \<or> m = 0
            then (case date (last dailyData) of (ly, lm, ld) \<Rightarrow> (ly, lm))
          else (y, m)
      | _ \<Rightarrow> (case date (last dailyData) of (ly, lm, ld) \<Rightarrow> (ly, lm)))"

text \<open>Step 3: the entries of the target month, up to the target day when one is given.\<close>

definition inTargetMonth :: "int \<Rightarrow> int \<Rightarrow> int option \<Rightarrow> daily \<Rightarrow> bool" where
  "inTargetMonth yr mo targetDay d =
     (case date d of (y, m, day) \<Rightarrow>
        if y \<noteq> yr \<or> m \<noteq> mo then False
        else (case targetDay of
                Some td \<Rightarrow> if day > td then False else True
              | None \<Rightarrow> True))"

text \<open>\<^verbatim>\<open>reduce((sum, d) => sum + d.energyKwh, 0)\<close>\<close>

definition sumEnergy :: "daily list \<Rightarrow> rat" where
  "sumEnergy ds = foldl (\<lambda>sum d. plus64 sum (energyKwh d)) 0 ds"

text \<open>
  \<^verbatim>\<open>predictMonthHybrid(dailyData, targetYear, targetMonth, targetDay, meterId)\<close>. Each of the
  three branches of its step 5 assigns \<^verbatim>\<open>predictedMonthKwh\<close>, \<^verbatim>\<open>averageDailyRate\<close> and
  \<^verbatim>\<open>hybridMetadata\<close>; the model gives a branch as the record of the three, not yet rounded
  to two decimals.
\<close>

record projected =
  p_predictedMonthKwh :: rat
  p_averageDailyRate :: rat
  p_hybridMetadata :: "hybridMetadata option"

text \<open>Standard mode (3 or more days, or a complete month).\<close>

definition standardMode :: "bool \<Rightarrow> rat \<Rightarrow> rat \<Rightarrow> int \<Rightarrow> projected" where
  "standardMode isComplete totalEnergyMonth avgCurrentMonth daysInCurrentMonth =
     (let predictedMonthKwh =
            (if isComplete then totalEnergyMonth
             else times64 avgCurrentMonth (of_int daysInCurrentMonth));
          averageDailyRate = avgCurrentMonth
      in \<lparr>p_predictedMonthKwh = predictedMonthKwh, p_averageDailyRate = averageDailyRate,
          p_hybridMetadata = None\<rparr>)"

text \<open>Steps 5.3 to 5.7: previous month data are there.\<close>

definition hybridMode ::
    "int \<Rightarrow> int \<Rightarrow> daily list \<Rightarrow> rat \<Rightarrow> rat \<Rightarrow> nat \<Rightarrow> int \<Rightarrow> projected" where
  "hybridMode prevYear prevMonth previousMonthData totalEnergyMonth avgCurrentMonth
       daysPassedMonth daysInCurrentMonth =
     (let totalEnergyPrevious = sumEnergy previousMonthData;
          daysInPreviousMonth = getDaysInMonth prevYear prevMonth;
          avgPreviousMonth = divide64 totalEnergyPrevious (of_nat (length previousMonthData));
          weightCurrent = binary64 (calculateCurrentMonthWeight (int daysPassedMonth));
          weightPrevious = minus64 1 weightCurrent;
          avgHybrid =
            plus64 (times64 avgCurrentMonth weightCurrent)
              (times64 avgPreviousMonth weightPrevious);
          predictedMonthKwh =
            plus64 totalEnergyMonth
              (times64 avgHybrid (of_int (max (daysInCurrentMonth - int daysPassedMonth) 0)));
          averageDailyRate = avgHybrid;
          hybridMetadata =
            HybridMeta
              \<lparr>pm_year = prevYear, pm_month = prevMonth,
               pm_daysUsed = length previousMonthData,
               pm_totalDays = daysInPreviousMonth,
               pm_totalEnergy = toFixed 2 totalEnergyPrevious,
               pm_avgDaily = toFixed 2 avgPreviousMonth\<rparr>
              \<lparr>cm_daysUsed = daysPassedMonth,
               cm_totalEnergy = toFixed 2 totalEnergyMonth,
               cm_avgDaily = toFixed 2 avgCurrentMonth\<rparr>
              \<lparr>current = weightCurrent, previous = weightPrevious\<rparr>
              (toFixed 2 avgHybrid)
              (''Using previous month data ('' @ String_of prevYear @ ''-'' @ pad prevMonth
               @ '') to stabilize prediction'')
      in \<lparr>p_predictedMonthKwh = predictedMonthKwh, p_averageDailyRate = averageDailyRate,
          p_hybridMetadata = Some hybridMetadata\<rparr>)"

text \<open>Previous month data are not available: the run rate of the current month alone.\<close>

definition fallbackMode :: "rat \<Rightarrow> int \<Rightarrow> projected" where
  "fallbackMode avgCurrentMonth daysInCurrentMonth =
     (let predictedMonthKwh = times64 avgCurrentMonth (of_int daysInCurrentMonth);
          averageDailyRate = avgCurrentMonth;
          hybridMetadata =
            FallbackMeta ''Previous month data not available''
              ''Prediction based on limited current month data only''
      in \<lparr>p_predictedMonthKwh = predictedMonthKwh, p_averageDailyRate = averageDailyRate,
          p_hybridMetadata = Some hybridMetadata\<rparr>)"

text \<open>
  Step 5 as a whole: standard mode, or the previous month is loaded and the prediction is
  the hybrid one when the load gave a non-empty series and the fallback otherwise.
\<close>

definition decideMode ::
    "fetcher \<Rightarrow> string \<Rightarrow> int \<Rightarrow> int \<Rightarrow> bool \<Rightarrow> bool \<Rightarrow> rat \<Rightarrow> rat \<Rightarrow> nat \<Rightarrow> int
      \<Rightarrow> projected" where
  "decideMode fetchReadingsInRange meterId yr mo useHybridMode isComplete totalEnergyMonth
       avgCurrentMonth daysPassedMonth daysInCurrentMonth =
     (if \<not> useHybridMode then
        standardMode isComplete totalEnergyMonth avgCurrentMonth daysInCurrentMonth
      else
        (let prev = getPreviousMonth yr mo;
             prevYear = fst prev;
             prevMonth = snd prev
         in case loadPreviousMonthData fetchReadingsInRange prevYear prevMonth meterId of
              Some previousMonthData \<Rightarrow>
                if length previousMonthData > 0 then
                  hybridMode prevYear prevMonth previousMonthData totalEnergyMonth
                    avgCurrentMonth daysPassedMonth daysInCurrentMonth
                else fallbackMode avgCurrentMonth daysInCurrentMonth
            | None \<Rightarrow> fallbackMode avgCurrentMonth daysInCurrentMonth))"

text \<open>
  The result object. \<open>percentMonthComplete\<close> is the number that the text
  \<^verbatim>\<open>percentComplete.toFixed(1)\<close> shows. A failure \<^verbatim>\<open>{ success: false, message }\<close> is
  \<open>Inl message\<close>, a success is \<open>Inr\<close> of the record.
\<close>

record monthResult =
  year :: int
  month :: int
  daysPassedMonth :: nat
  daysInCurrentMonth :: int
  totalEnergyMonth :: rat
  predictedMonthKwh :: rat
  averageDailyRate :: rat
  percentMonthComplete :: rat
  isComplete :: bool
  valueSource :: valueSource
  targetDay :: "int option"

record prediction = monthResult +
  predictionMode :: predictionMode
  hybrid :: "hybridMetadata option"
  confidence :: confidence

text \<open>The hybrid prediction itself, steps 1 to 7.\<close>

definition predictMonthHybrid ::
    "fetcher \<Rightarrow> daily list \<Rightarrow> int option \<Rightarrow> int option \<Rightarrow> int option \<Rightarrow> string
      \<Rightarrow> string + prediction" where
  "predictMonthHybrid = (\<lambda>fetchReadingsInRange dailyData targetYear targetMonth targetDay meterId.
     if length dailyData < MIN_DAYS_REQUIRED then
       Inl (''Need at least '' @ String_of (int MIN_DAYS_REQUIRED)
            @ '' days of data. Currently have '' @ String_of (int (length dailyData))
            @ '' day(s).'')
     else
       (let period = targetPeriod dailyData targetYear targetMonth;
            year = fst period;
            month = snd period;
            monthData = filter (inTargetMonth year month targetDay) dailyData in
        if length monthData < MIN_DAYS_REQUIRED then
          Inl (''Need at least '' @ String_of (int MIN_DAYS_REQUIRED) @ '' days of ''
               @ String_of year @ ''-'' @ pad month @ ''.'')
        else
          (let totalEnergyMonth = sumEnergy monthData;
               daysPassedMonth = length monthData;
               daysInCurrentMonth = getDaysInMonth year month;
               avgCurrentMonth = divide64 totalEnergyMonth (of_nat daysPassedMonth);
               effectiveDayLimit =
                 (case targetDay of Some td \<Rightarrow> td | None \<Rightarrow> int daysPassedMonth);
               percentComplete =
                 min (times64 (divide64 (of_int effectiveDayLimit) (of_int daysInCurrentMonth))
                        100) 100;
               isComplete = (effectiveDayLimit \<ge> daysInCurrentMonth);
               useHybridMode = (daysPassedMonth < HYBRID_THRESHOLD \<and> \<not> isComplete);
               branch =
                 decideMode fetchReadingsInRange meterId year month useHybridMode isComplete
                   totalEnergyMonth avgCurrentMonth daysPassedMonth daysInCurrentMonth;
               predictedMonthKwh = p_predictedMonthKwh branch;
               averageDailyRate = p_averageDailyRate branch;
               hybridMetadata = p_hybridMetadata branch;
               confidence =
                 calculateConfidenceHybrid (int daysPassedMonth) daysInCurrentMonth useHybridMode
                   (hasPreviousMonth hybridMetadata)
           in Inr \<lparr>year = year, month = month,
                    daysPassedMonth = daysPassedMonth,
                    daysInCurrentMonth = daysInCurrentMonth,
                    totalEnergyMonth = toFixed 2 totalEnergyMonth,
                    predictedMonthKwh = toFixed 2 predictedMonthKwh,
                    averageDailyRate = toFixed 2 averageDailyRate,
                    percentMonthComplete = toFixedValue 1 percentComplete,
                    isComplete = isComplete,
                    valueSource = (if isComplete then actual else projection),
                    targetDay = targetDay,
                    predictionMode =
                      (case hybridMetadata of Some m \<Rightarrow> metadataMode m | None \<Rightarrow> mode_standard),
                    hybrid = hybridMetadata,
                    confidence = confidence\<rparr>)))"

section \<open>Worked examples\<close>

text \<open>
  The inputs of the scenarios: one day of 85 kWh on January 1st 2025, a December 2024 with
  150 kWh on each of its 31 days, a database that holds this December for meter M1 and one
  that holds nothing, two series whose only entry lies apart from the requested day or
  month, and the first three days of January 2025.
\<close>

definition january_first :: "daily list" where
  "january_first = [\<lparr>date = (2025, 1, 1), energyKwh = 85, hoursCount = 24\<rparr>]"

definition december_readings :: "reading list" where
  "december_readings =
     map (\<lambda>d. \<lparr>meter_id = ''M1'', ts_date = (2024, 12, d), ts_hour = 0,
                 energy_consumed_kwh = 150\<rparr>) [1..31]"

definition database_with_december :: fetcher where
  "database_with_december =
     (\<lambda>start end meterId.
        if start = (2024, 12, 1) \<and> end = (2025, 1, 1) \<and> meterId = ''M1''
        then Some december_readings else None)"

definition database_without_history :: fetcher where
  "database_without_history = (\<lambda>start end meterId. None)"

definition january_fifth :: "daily list" where
  "january_fifth = [\<lparr>date = (2025, 1, 5), energyKwh = 10, hoursCount = 24\<rparr>]"


definition january_three_days :: "daily list" where
  "january_three_days =
     [\<lparr>date = (2025, 1, 1), energyKwh = 148, hoursCount = 24\<rparr>,
      \<lparr>date = (2025, 1, 2), energyKwh = 149, hoursCount = 24\<rparr>,
      \<lparr>date = (2025, 1, 3), energyKwh = 150, hoursCount = 24\<rparr>]"

section \<open>Rounding to a double\<close>

text \<open>
  The rounding is monotone and idempotent on the non-negative numbers, and the double
  nearest to \<open>q\<close> lies in the binade of \<open>q\<close>.
\<close>

lemma roundTiesToEven_of_int: "roundTiesToEven (of_int n) = n"
  by (simp add: roundTiesToEven_def)

lemma roundTiesToEven_bounds:
  "\<lfloor>q\<rfloor> \<le> roundTiesToEven q \<and> roundTiesToEven q \<le> \<lfloor>q\<rfloor> + 1"
  by (simp add: roundTiesToEven_def Let_def)

lemma roundTiesToEven_mono:
  assumes "a \<le> b"
  shows "roundTiesToEven a \<le> roundTiesToEven b"
proof (cases "\<lfloor>a\<rfloor> = \<lfloor>b\<rfloor>")
  case False
  with floor_mono [OF assms] have "\<lfloor>a\<rfloor> + 1 \<le> \<lfloor>b\<rfloor>" by simp
  with roundTiesToEven_bounds [of a] roundTiesToEven_bounds [of b] show ?thesis by linarith
next
  case True
  with assms have "a - of_int \<lfloor>a\<rfloor> \<le> b - of_int \<lfloor>b\<rfloor>" by simp
  with True show ?thesis by (auto simp add: roundTiesToEven_def Let_def)
qed

lemma two_powi_pos: "0 < (2::rat) powi k"
  by simp

lemma binaryExponent_bounds:
  assumes "q \<noteq> 0"
  shows "2 powi binaryExponent q \<le> \<bar>q\<bar>" and "\<bar>q\<bar> < 2 powi (binaryExponent q + 1)"
proof -
  obtain a b where ab: "quotient_of \<bar>q\<bar> = (a, b)" by (cases "quotient_of \<bar>q\<bar>")
  from quotient_of_denom_pos [OF ab] have b: "0 < b" .
  from quotient_of_div [OF ab] have q: "\<bar>q\<bar> = of_int a / of_int b" .
  from assms have "0 < \<bar>q\<bar>" by simp
  with q b have a: "0 < a" by (simp add: zero_less_divide_iff)
  let ?A = "bitlen a" and ?B = "bitlen b"
  from bitlen_bounds [OF a] have a1: "2 ^ nat (?A - 1) \<le> a" and a2: "a < 2 ^ nat ?A" by simp_all
  from bitlen_bounds [OF b] have b1: "2 ^ nat (?B - 1) \<le> b" and b2: "b < 2 ^ nat ?B" by simp_all
  have A: "1 \<le> ?A" using a bitlen_nonneg [of a] bitlen_eq_zero_iff [of a] by linarith
  have B: "1 \<le> ?B" using b bitlen_nonneg [of b] bitlen_eq_zero_iff [of b] by linarith
  have ra1: "(2::rat) powi (?A - 1) \<le> of_int a"
  proof -
    have "(2::rat) powi (?A - 1) = 2 ^ nat (?A - 1)" using A by (simp add: power_int_def)
    also have "\<dots> = of_int (2 ^ nat (?A - 1))" by simp
    also have "\<dots> \<le> of_int a" using a1 by (simp only: of_int_le_iff)
    finally show ?thesis .
  qed
  have ra2: "of_int a < (2::rat) powi ?A"
  proof -
    have "(of_int a :: rat) < of_int (2 ^ nat ?A)" using a2 by (simp only: of_int_less_iff)
    also have "\<dots> = 2 ^ nat ?A" by simp
    also have "\<dots> = (2::rat) powi ?A" using A by (simp add: power_int_def)
    finally show ?thesis .
  qed
  have rb1: "(2::rat) powi (?B - 1) \<le> of_int b"
  proof -
    have "(2::rat) powi (?B - 1) = 2 ^ nat (?B - 1)" using B by (simp add: power_int_def)
    also have "\<dots> = of_int (2 ^ nat (?B - 1))" by simp
    also have "\<dots> \<le> of_int b" using b1 by (simp only: of_int_le_iff)
    finally show ?thesis .
  qed
  have rb2: "of_int b < (2::rat) powi ?B"
  proof -
    have "(of_int b :: rat) < of_int (2 ^ nat ?B)" using b2 by (simp only: of_int_less_iff)
    also have "\<dots> = 2 ^ nat ?B" by simp
    also have "\<dots> = (2::rat) powi ?B" using B by (simp add: power_int_def)
    finally show ?thesis .
  qed
  have bpos: "(0::rat) < of_int b" using b by simp
  have lo: "(2::rat) powi (?A - ?B - 1) < \<bar>q\<bar>"
  proof -
    have "(2::rat) powi (?A - ?B - 1) = 2 powi (?A - 1) / 2 powi ?B"
      using power_int_diff [of "2::rat" "?A - 1" ?B] by (simp add: algebra_simps)
    also have "\<dots> \<le> of_int a / 2 powi ?B"
      using ra1 by (simp add: divide_right_mono)
    also have "\<dots> < of_int a / of_int b"
      using rb2 bpos a by (simp add: divide_strict_left_mono)
    finally show ?thesis unfolding q .
  qed
  have hi: "\<bar>q\<bar> < (2::rat) powi (?A - ?B + 1)"
  proof -
    have "of_int a / (of_int b :: rat) < 2 powi ?A / of_int b"
      using ra2 bpos by (simp add: divide_strict_right_mono)
    also have "\<dots> \<le> 2 powi ?A / 2 powi (?B - 1)"
      using rb1 bpos by (intro divide_left_mono) simp_all
    also have "\<dots> = (2::rat) powi (?A - ?B + 1)"
      using power_int_diff [of "2::rat" ?A "?B - 1"] by (simp add: algebra_simps)
    finally show ?thesis unfolding q .
  qed
  show "2 powi binaryExponent q \<le> \<bar>q\<bar>"
    using lo by (auto simp add: binaryExponent_def ab Let_def)
  show "\<bar>q\<bar> < 2 powi (binaryExponent q + 1)"
    using hi by (auto simp add: binaryExponent_def ab Let_def not_le)
qed


lemma two_powi_split:
  "(2::rat) powi e = 2 ^ 52 * 2 powi (e - 52)"
  "(2::rat) powi (e + 1) = 2 ^ 53 * 2 powi (e - 52)"
proof -
  have a: "52 + (e - 52) = e" and b: "53 + (e - 52) = e + 1" by simp_all
  show "(2::rat) powi e = 2 ^ 52 * 2 powi (e - 52)"
    using power_int_add [of "2::rat" 52 "e - 52"] unfolding a by simp
  show "(2::rat) powi (e + 1) = 2 ^ 53 * 2 powi (e - 52)"
    using power_int_add [of "2::rat" 53 "e - 52"] unfolding b by simp
qed

lemma two_powi_less_next: "(2::rat) powi e < 2 powi (e + 1)"
  by (intro power_int_strict_increasing) simp_all

lemma two_powi_le_imp_le:
  assumes "(2::rat) powi i < 2 powi (j + 1)"
  shows "i \<le> j"
proof (rule ccontr)
  assume "\<not> i \<le> j"
  then have "j + 1 \<le> i" by simp
  then have "(2::rat) powi (j + 1) \<le> 2 powi i" by (intro power_int_increasing) simp_all
  with assms show False by simp
qed

lemma binaryExponent_unique:
  assumes "2 powi e \<le> \<bar>q\<bar>" and "\<bar>q\<bar> < 2 powi (e + 1)"
  shows "binaryExponent q = e"
proof -
  have "q \<noteq> 0"
  proof
    assume "q = 0"
    with assms(1) have "(2::rat) powi e \<le> 0" by simp
    with two_powi_pos [of e] show False by linarith
  qed
  note b = binaryExponent_bounds [OF this]
  from b(1) assms(2) have "2 powi binaryExponent q < (2::rat) powi (e + 1)" by simp
  then have 1: "binaryExponent q \<le> e" by (rule two_powi_le_imp_le)
  from assms(1) b(2) have "2 powi e < (2::rat) powi (binaryExponent q + 1)" by simp
  then have 2: "e \<le> binaryExponent q" by (rule two_powi_le_imp_le)
  from 1 2 show ?thesis by simp
qed

lemma binary64_nonzero:
  assumes "q \<noteq> 0"
  shows "binary64 q = of_int (roundTiesToEven (q / 2 powi (binaryExponent q - 52)))
                        * 2 powi (binaryExponent q - 52)"
  using assms by (simp add: binary64_def Let_def)

lemma binary64_pos_bounds:
  assumes "0 < q"
  shows "2 powi binaryExponent q \<le> binary64 q"
    and "binary64 q \<le> 2 powi (binaryExponent q + 1)"
proof -
  let ?e = "binaryExponent q"
  let ?u = "(2::rat) powi (?e - 52)"
  from assms have q: "q \<noteq> 0" "\<bar>q\<bar> = q" by simp_all
  note b = binaryExponent_bounds [OF q(1), unfolded q(2)]
  have u: "0 < ?u" by simp
  have lo: "2 ^ 52 \<le> q / ?u"
  proof -
    from b(1) u show ?thesis
      unfolding two_powi_split(1) [of ?e] by (simp add: pos_le_divide_eq)
  qed
  have hi: "q / ?u \<le> 2 ^ 53"
  proof -
    from b(2) u show ?thesis
      unfolding two_powi_split(2) [of ?e] by (simp add: pos_divide_le_eq)
  qed
  have "roundTiesToEven (of_int (2 ^ 52)) \<le> roundTiesToEven (q / ?u)"
    using lo by (intro roundTiesToEven_mono) simp
  then have rlo: "2 ^ 52 \<le> roundTiesToEven (q / ?u)"
    by (simp only: roundTiesToEven_of_int)
  have "roundTiesToEven (q / ?u) \<le> roundTiesToEven (of_int (2 ^ 53))"
    using hi by (intro roundTiesToEven_mono) simp
  then have rhi: "roundTiesToEven (q / ?u) \<le> 2 ^ 53"
    by (simp only: roundTiesToEven_of_int)
  have v: "binary64 q = of_int (roundTiesToEven (q / ?u)) * ?u"
    using q(1) by (simp add: binary64_def Let_def)
  have "(2::rat) powi ?e = of_int (2 ^ 52) * ?u"
    using two_powi_split(1) [of ?e] by simp
  also have "\<dots> \<le> of_int (roundTiesToEven (q / ?u)) * ?u"
  proof (rule mult_right_mono)
    show "(of_int (2 ^ 52) :: rat) \<le> of_int (roundTiesToEven (q / ?u))"
      using rlo by (simp only: of_int_le_iff)
    show "0 \<le> ?u" by simp
  qed
  finally show "2 powi ?e \<le> binary64 q" unfolding v .
  have "of_int (roundTiesToEven (q / ?u)) * ?u \<le> of_int (2 ^ 53) * ?u"
  proof (rule mult_right_mono)
    show "(of_int (roundTiesToEven (q / ?u)) :: rat) \<le> of_int (2 ^ 53)"
      using rhi by (simp only: of_int_le_iff)
    show "0 \<le> ?u" by simp
  qed
  also have "\<dots> = (2::rat) powi (?e + 1)"
    using two_powi_split(2) [of ?e] by simp
  finally show "binary64 q \<le> 2 powi (?e + 1)" unfolding v .
qed

lemma binary64_nonneg:
  assumes "0 \<le> q"
  shows "0 \<le> binary64 q"
proof (cases "q = 0")
  case True
  then show ?thesis by (simp add: binary64_def)
next
  case False
  with assms have "0 < q" by simp
  from binary64_pos_bounds(1) [OF this] show ?thesis
    using two_powi_pos [of "binaryExponent q"] by linarith
qed

lemma binary64_mono:
  assumes "0 \<le> x" and "x \<le> y"
  shows "binary64 x \<le> binary64 y"
proof (cases "x = 0")
  case True
  with assms binary64_nonneg [of y] show ?thesis by (simp add: binary64_def)
next
  case False
  with assms have x: "0 < x" and y: "0 < y" by simp_all
  then have ax: "\<bar>x\<bar> = x" "x \<noteq> 0" and ay: "\<bar>y\<bar> = y" "y \<noteq> 0" by simp_all
  note bx = binaryExponent_bounds [OF ax(2), unfolded ax(1)]
  note by' = binaryExponent_bounds [OF ay(2), unfolded ay(1)]
  from bx(1) assms(2) by'(2) have "2 powi binaryExponent x < (2::rat) powi (binaryExponent y + 1)"
    by simp
  then have le: "binaryExponent x \<le> binaryExponent y" by (rule two_powi_le_imp_le)
  show ?thesis
  proof (cases "binaryExponent x = binaryExponent y")
    case True
    let ?u = "(2::rat) powi (binaryExponent y - 52)"
    have "x / ?u \<le> y / ?u" using assms(2) by (simp add: divide_right_mono)
    then have "roundTiesToEven (x / ?u) \<le> roundTiesToEven (y / ?u)"
      by (rule roundTiesToEven_mono)
    then have "(of_int (roundTiesToEven (x / ?u)) :: rat) \<le> of_int (roundTiesToEven (y / ?u))"
      by (simp only: of_int_le_iff)
    then have "of_int (roundTiesToEven (x / ?u)) * ?u \<le> of_int (roundTiesToEven (y / ?u)) * ?u"
      by (intro mult_right_mono) simp_all
    then show ?thesis using ax(2) ay(2) True by (simp add: binary64_def Let_def)
  next
    case False
    with le have "binaryExponent x + 1 \<le> binaryExponent y" by simp
    then have "(2::rat) powi (binaryExponent x + 1) \<le> 2 powi binaryExponent y"
      by (intro power_int_increasing) simp_all
    with binary64_pos_bounds(2) [OF x] binary64_pos_bounds(1) [OF y] show ?thesis by linarith
  qed
qed

lemma binary64_idem:
  assumes "0 \<le> q"
  shows "binary64 (binary64 q) = binary64 q"
proof (cases "q = 0")
  case True
  then show ?thesis by (simp add: binary64_def)
next
  case False
  with assms have q: "0 < q" by simp
  let ?e = "binaryExponent q"
  let ?u = "(2::rat) powi (?e - 52)"
  let ?m = "roundTiesToEven (q / ?u)"
  have v: "binary64 q = of_int ?m * ?u"
    using False by (simp add: binary64_def Let_def)
  note b = binary64_pos_bounds [OF q]
  have vpos: "0 < binary64 q" using b(1) two_powi_pos [of ?e] by linarith
  then have av: "\<bar>binary64 q\<bar> = binary64 q" "binary64 q \<noteq> 0" by simp_all
  show ?thesis
  proof (cases "binary64 q = 2 powi (?e + 1)")
    case True
    have e: "binaryExponent (binary64 q) = ?e + 1"
      using two_powi_less_next [of "?e + 1"]
      by (intro binaryExponent_unique) (simp_all add: av True)
    have "binary64 q / 2 powi (?e + 1 - 52) = of_int (2 ^ 52)"
      unfolding True using two_powi_split(1) [of "?e + 1"] by simp
    then have "roundTiesToEven (binary64 q / 2 powi (?e + 1 - 52)) = 2 ^ 52"
      by (simp only: roundTiesToEven_of_int)
    then have "binary64 (binary64 q) = of_int (2 ^ 52) * 2 powi (?e + 1 - 52)"
      unfolding binary64_nonzero [OF av(2)] e by simp
    also have "\<dots> = 2 powi (?e + 1)"
      using two_powi_split(1) [of "?e + 1"] by simp
    finally show ?thesis using True by simp
  next
    case False
    with b(2) have "binary64 q < 2 powi (?e + 1)" by simp
    with b(1) have e: "binaryExponent (binary64 q) = ?e"
      by (intro binaryExponent_unique) (simp_all add: av)
    have "binary64 q / ?u = of_int ?m" unfolding v by simp
    then have "roundTiesToEven (binary64 q / ?u) = ?m"
      by (simp only: roundTiesToEven_of_int)
    then have "binary64 (binary64 q) = of_int ?m * ?u"
      unfolding binary64_nonzero [OF av(2)] e by simp
    then show ?thesis unfolding v .
  qed
qed

lemma binary64_numerals:
  "binary64 100 = 100" "binary64 50 = 50" "binary64 (1 / 2) = 1 / 2" "binary64 1 = 1"
  "binary64 (10 ^ 21) = 10 ^ 21"
  by code_simp+

section \<open>The confidence scorer is the threshold table\<close>

lemma percentCompleteOf_cases:
  "percentCompleteOf d t =
     (if t = 0 then (if d = 0 then NaN else if 0 < d then PosInfinity else NegInfinity)
      else Num (binary64 (binary64 (of_int d / of_int t) * 100)))"
  by (simp add: percentCompleteOf_def js_div_def divide64_def times64_def)

lemma score_cases:
  "score (calculateConfidenceHybrid d t h p) =
     (let pc = percentCompleteOf d t in
      if js_eq pc 100 then 100 else if js_ge pc 80 then 90 else if js_ge pc 50 then 80
      else if js_ge pc 25 then 65
      else if h \<and> p then (if d = 2 then 55 else 45) else (if d = 2 then 35 else 25))"
  by (simp add: calculateConfidenceHybrid_def Let_def)

text \<open>
  C4. The scorer is a total function without an error path. With \<open>totalDays\<close> other than 0
  it computes \<open>percentComplete\<close> as the quotient \<open>daysAnalyzed / totalDays\<close> times 100, each
  of the two operations rounded to a double, and reads the table in this order, the first
  match winning: \<open>= 100\<close> exact/100, \<open>\<ge> 80\<close> \<open>very_high\<close>/90, \<open>\<ge> 50\<close> high/80, \<open>\<ge> 25\<close>
  medium/65; below the table \<open>medium_hybrid\<close>/55 or \<open>low_hybrid\<close>/45 with both flags set, and
  low/35 or \<open>very_low\<close>/25 otherwise, the first of each pair for exactly two observed days.
  With \<open>totalDays = 0\<close> the division does not fail: a positive \<open>daysAnalyzed\<close> gives
  \<open>Infinity\<close>, which is not 100 and is at least 80, and zero or a negative one give \<open>NaN\<close> or
  \<open>-Infinity\<close>, which pass no threshold and fall to the rows below the table.
\<close>

theorem confidence_threshold_table:
  "(level (calculateConfidenceHybrid d t h p), score (calculateConfidenceHybrid d t h p)) =
     (let belowTable =
            (if h \<and> p then (if d = 2 then (medium_hybrid, 55) else (low_hybrid, 45))
             else (if d = 2 then (low, 35) else (very_low, 25)))
      in if t = 0 then (if 0 < d then (very_high, 90) else belowTable)
         else (let percentComplete = binary64 (binary64 (of_int d / of_int t) * 100)
               in if percentComplete = 100 then (exact, 100)
                  else if 80 \<le> percentComplete then (very_high, 90)
                  else if 50 \<le> percentComplete then (high, 80)
                  else if 25 \<le> percentComplete then (medium, 65)
                  else belowTable))"
  by (auto simp add: calculateConfidenceHybrid_def percentCompleteOf_cases Let_def)

theorem confidence_threshold_table_witness:
  "(level (calculateConfidenceHybrid 31 31 False False),
    score (calculateConfidenceHybrid 31 31 False False)) = (exact, 100)
   \<and> (level (calculateConfidenceHybrid 25 31 False False),
      score (calculateConfidenceHybrid 25 31 False False)) = (very_high, 90)
   \<and> (level (calculateConfidenceHybrid 16 31 True False),
      score (calculateConfidenceHybrid 16 31 True False)) = (high, 80)
   \<and> (level (calculateConfidenceHybrid 8 31 False True),
      score (calculateConfidenceHybrid 8 31 False True)) = (medium, 65)
   \<and> (level (calculateConfidenceHybrid 2 31 True True),
      score (calculateConfidenceHybrid 2 31 True True)) = (medium_hybrid, 55)
   \<and> (level (calculateConfidenceHybrid 1 31 True True),
      score (calculateConfidenceHybrid 1 31 True True)) = (low_hybrid, 45)
   \<and> (level (calculateConfidenceHybrid 2 31 True False),
      score (calculateConfidenceHybrid 2 31 True False)) = (low, 35)
   \<and> (level (calculateConfidenceHybrid 1 31 True False),
      score (calculateConfidenceHybrid 1 31 True False)) = (very_low, 25)
   \<and> (level (calculateConfidenceHybrid 32 31 False False),
      score (calculateConfidenceHybrid 32 31 False False)) = (very_high, 90)
   \<and> (level (calculateConfidenceHybrid 5 0 False False),
      score (calculateConfidenceHybrid 5 0 False False)) = (very_high, 90)
   \<and> (level (calculateConfidenceHybrid 0 0 False False),
      score (calculateConfidenceHybrid 0 0 False False)) = (very_low, 25)"
  by (simp only: confidence_threshold_table) code_simp

text \<open>
  C7. The score does not grow with \<open>percentComplete\<close>: three observed days of 31 are more
  complete than two and score 25, at level \<open>very_low\<close>, where two days score 35, at level
  low. The three days are what a request for January 3rd gives in standard mode, with a
  database that holds no earlier month.
\<close>

theorem score_drops_at_three_days:
  "js_le (percentCompleteOf 2 31) (percentCompleteOf 3 31)
   \<and> \<not> js_le (percentCompleteOf 3 31) (percentCompleteOf 2 31)
   \<and> (level (calculateConfidenceHybrid 2 31 False False),
      score (calculateConfidenceHybrid 2 31 False False)) = (low, 35)
   \<and> (level (calculateConfidenceHybrid 3 31 False False),
      score (calculateConfidenceHybrid 3 31 False False)) = (very_low, 25)
   \<and> map_sum id (\<lambda>r. (daysPassedMonth r, predictionMode r, level (confidence r),
                        score (confidence r)))
        (predictMonthHybrid database_without_history january_three_days
           (Some 2025) (Some 1) (Some 3) ''M1'')
      = Inr (3, mode_standard, very_low, 25)"
  by code_simp

section \<open>The adaptive weights\<close>

lemma binary64_weights_030:
  "(let weightCurrent = binary64 (3 / 10); weightPrevious = binary64 (1 - weightCurrent)
    in 0 \<le> weightCurrent \<and> weightCurrent \<le> 1 \<and> 0 \<le> weightPrevious \<and> weightPrevious \<le> 1
       \<and> binary64 (weightCurrent + weightPrevious) = 1)"
  by code_simp

lemma binary64_weights_050:
  "(let weightCurrent = binary64 (1 / 2); weightPrevious = binary64 (1 - weightCurrent)
    in 0 \<le> weightCurrent \<and> weightCurrent \<le> 1 \<and> 0 \<le> weightPrevious \<and> weightPrevious \<le> 1
       \<and> binary64 (weightCurrent + weightPrevious) = 1)"
  by code_simp

lemma calculateCurrentMonthWeight_cases:
  "calculateCurrentMonthWeight d = (if d = 2 then 1 / 2 else 3 / 10)"
  by (simp add: calculateCurrentMonthWeight_def weights_def)

text \<open>
  C6. The weight of the current month is 0.30 for one observed day, 0.50 for two and 0.30
  for any other count; the weight of the previous month is 1 minus it; both lie in [0,1]
  and add up to 1, in exact arithmetic and also in the binary64 arithmetic of the program,
  where the sum is the double 1.0 exactly.
\<close>

theorem weights_sum_to_one:
  "calculateCurrentMonthWeight d = (if d = 1 then 0.30 else if d = 2 then 0.50 else 0.30)
   \<and> (let weightCurrent = calculateCurrentMonthWeight d; weightPrevious = 1 - weightCurrent
      in 0 \<le> weightCurrent \<and> weightCurrent \<le> 1 \<and> 0 \<le> weightPrevious \<and> weightPrevious \<le> 1
         \<and> weightCurrent + weightPrevious = 1)
   \<and> (let weightCurrent = binary64 (calculateCurrentMonthWeight d);
          weightPrevious = binary64 (1 - weightCurrent)
      in 0 \<le> weightCurrent \<and> weightCurrent \<le> 1 \<and> 0 \<le> weightPrevious \<and> weightPrevious \<le> 1
         \<and> binary64 (weightCurrent + weightPrevious) = 1)"
proof -
  have table: "calculateCurrentMonthWeight d
      = (if d = 1 then 0.30 else if d = 2 then 0.50 else 0.30)"
    by (simp add: calculateCurrentMonthWeight_cases)
  have reals: "(let weightCurrent = calculateCurrentMonthWeight d;
                    weightPrevious = 1 - weightCurrent
      in 0 \<le> weightCurrent \<and> weightCurrent \<le> 1 \<and> 0 \<le> weightPrevious \<and> weightPrevious \<le> 1
         \<and> weightCurrent + weightPrevious = 1)"
    by (simp add: calculateCurrentMonthWeight_cases Let_def)
  have doubles: "(let weightCurrent = binary64 (calculateCurrentMonthWeight d);
                      weightPrevious = binary64 (1 - weightCurrent)
      in 0 \<le> weightCurrent \<and> weightCurrent \<le> 1 \<and> 0 \<le> weightPrevious \<and> weightPrevious \<le> 1
         \<and> binary64 (weightCurrent + weightPrevious) = 1)"
  proof (cases "d = 2")
    case True
    then have w: "calculateCurrentMonthWeight d = 1 / 2"
      by (simp add: calculateCurrentMonthWeight_cases)
    show ?thesis unfolding w by (rule binary64_weights_050)
  next
    case False
    then have w: "calculateCurrentMonthWeight d = 3 / 10"
      by (simp add: calculateCurrentMonthWeight_cases)
    show ?thesis unfolding w by (rule binary64_weights_030)
  qed
  show ?thesis by (rule conjI [OF table conjI [OF reals doubles]])
qed

theorem weights_sum_to_one_witness:
  "calculateCurrentMonthWeight 1 = 3 / 10
   \<and> binary64 (binary64 (3 / 10) + binary64 (1 - binary64 (3 / 10))) = 1"
proof -
  have w: "calculateCurrentMonthWeight 1 = 3 / 10"
    by (simp add: calculateCurrentMonthWeight_cases)
  from weights_sum_to_one [of 1] show ?thesis
    unfolding w Let_def by blast
qed

section \<open>The hybrid prediction, unfolded\<close>

text \<open>
  With at least one entry in the series and at least one in the target month, the
  prediction succeeds and is the record below, given by the branch taken in step 5.
\<close>

lemma predictMonthHybrid_result:
  assumes "dailyData \<noteq> []"
    and "y = fst (targetPeriod dailyData ty tm)"
    and "m = snd (targetPeriod dailyData ty tm)"
    and "monthData = filter (inTargetMonth y m td) dailyData"
    and "monthData \<noteq> []"
    and "eff = (case td of Some c \<Rightarrow> c | None \<Rightarrow> int (length monthData))"
    and "cmpl = (getDaysInMonth y m \<le> eff)"
    and "useHybrid = (length monthData < 3 \<and> \<not> cmpl)"
    and "avg = divide64 (sumEnergy monthData) (of_nat (length monthData))"
    and "branch = decideMode fetch mid y m useHybrid cmpl (sumEnergy monthData) avg
                    (length monthData) (getDaysInMonth y m)"
  shows "predictMonthHybrid fetch dailyData ty tm td mid =
    Inr \<lparr>year = y, month = m,
         daysPassedMonth = length monthData,
         daysInCurrentMonth = getDaysInMonth y m,
         totalEnergyMonth = toFixed 2 (sumEnergy monthData),
         predictedMonthKwh = toFixed 2 (p_predictedMonthKwh branch),
         averageDailyRate = toFixed 2 (p_averageDailyRate branch),
         percentMonthComplete =
           toFixedValue 1
             (min (times64 (divide64 (of_int eff) (of_int (getDaysInMonth y m))) 100) 100),
         isComplete = cmpl,
         valueSource = (if cmpl then actual else projection),
         targetDay = td,
         predictionMode =
           (case p_hybridMetadata branch of Some md \<Rightarrow> metadataMode md
            | None \<Rightarrow> mode_standard),
         hybrid = p_hybridMetadata branch,
         confidence =
           calculateConfidenceHybrid (int (length monthData)) (getDaysInMonth y m) useHybrid
             (hasPreviousMonth (p_hybridMetadata branch))\<rparr>"
proof -
  have ne1: "\<not> length dailyData < 1"
    using assms(1) by (cases dailyData) simp_all
  have ne2: "\<not> length (filter (inTargetMonth (fst (targetPeriod dailyData ty tm))
                 (snd (targetPeriod dailyData ty tm)) td) dailyData) < 1"
    using assms(5) unfolding assms(4) assms(2,3) by (simp add: less_Suc_eq_0_disj)
  show ?thesis
    unfolding assms(10) assms(9) assms(8) assms(7) assms(6) assms(4) assms(2,3)
    using ne1 ne2
    by (simp add: predictMonthHybrid_def MIN_DAYS_REQUIRED_def HYBRID_THRESHOLD_def Let_def)
qed

lemma String_of_1: "String_of 1 = ''1''"
  by code_simp

lemma String_of_0: "String_of 0 = ''0''"
  by code_simp

lemma predictMonthHybrid_empty:
  "predictMonthHybrid fetch [] ty tm td mid
     = Inl ''Need at least 1 days of data. Currently have 0 day(s).''"
  by (simp add: predictMonthHybrid_def MIN_DAYS_REQUIRED_def String_of_1 String_of_0)

lemma predictMonthHybrid_no_month_data:
  assumes "dailyData \<noteq> []"
    and "filter (inTargetMonth (fst (targetPeriod dailyData ty tm))
           (snd (targetPeriod dailyData ty tm)) td) dailyData = []"
  shows "predictMonthHybrid fetch dailyData ty tm td mid =
     Inl (''Need at least 1 days of '' @ String_of (fst (targetPeriod dailyData ty tm))
          @ ''-'' @ pad (snd (targetPeriod dailyData ty tm)) @ ''.'')"
proof -
  have ne1: "\<not> length dailyData < 1"
    using assms(1) by (cases dailyData) simp_all
  show ?thesis using ne1 assms(2)
    by (simp add: predictMonthHybrid_def MIN_DAYS_REQUIRED_def Let_def String_of_1)
qed

lemma predictMonthHybrid_Inr_nonempty:
  assumes "predictMonthHybrid fetch dailyData ty tm td mid = Inr r"
  shows "dailyData \<noteq> [] \<and> filter (inTargetMonth (fst (targetPeriod dailyData ty tm))
           (snd (targetPeriod dailyData ty tm)) td) dailyData \<noteq> []"
proof (intro conjI notI)
  assume "dailyData = []"
  with assms show False by (simp add: predictMonthHybrid_empty)
next
  assume e: "filter (inTargetMonth (fst (targetPeriod dailyData ty tm))
           (snd (targetPeriod dailyData ty tm)) td) dailyData = []"
  show False
  proof (cases "dailyData = []")
    case True
    with assms show False by (simp add: predictMonthHybrid_empty)
  next
    case False
    from predictMonthHybrid_no_month_data [OF False e, of fetch mid] assms show False by simp
  qed
qed

lemma predictMonthHybrid_fields:
  fixes dailyData ty tm td fetch mid
  defines "y \<equiv> fst (targetPeriod dailyData ty tm)"
    and "m \<equiv> snd (targetPeriod dailyData ty tm)"
  defines "monthData \<equiv> filter (inTargetMonth y m td) dailyData"
  defines "cmpl \<equiv>
      (getDaysInMonth y m \<le> (case td of Some c \<Rightarrow> c | None \<Rightarrow> int (length monthData)))"
    and "avg \<equiv> divide64 (sumEnergy monthData) (of_nat (length monthData))"
  defines "branch \<equiv>
      decideMode fetch mid y m (length monthData < 3 \<and> \<not> cmpl) cmpl (sumEnergy monthData)
        avg (length monthData) (getDaysInMonth y m)"
  assumes ok: "predictMonthHybrid fetch dailyData ty tm td mid = Inr r"
  shows "dailyData \<noteq> []" and "monthData \<noteq> []"
    and "year r = y" and "month r = m"
    and "daysPassedMonth r = length monthData"
    and "daysInCurrentMonth r = getDaysInMonth y m"
    and "isComplete r = cmpl"
    and "valueSource r = (if cmpl then actual else projection)"
    and "totalEnergyMonth r = toFixed 2 (sumEnergy monthData)"
    and "predictedMonthKwh r = toFixed 2 (p_predictedMonthKwh branch)"
    and "averageDailyRate r = toFixed 2 (p_averageDailyRate branch)"
    and "hybrid r = p_hybridMetadata branch"
    and "predictionMode r
          = (case p_hybridMetadata branch of Some md \<Rightarrow> metadataMode md
             | None \<Rightarrow> mode_standard)"
    and "confidence r =
           calculateConfidenceHybrid (int (length monthData)) (getDaysInMonth y m)
             (length monthData < 3 \<and> \<not> cmpl) (hasPreviousMonth (p_hybridMetadata branch))"
proof -
  from predictMonthHybrid_Inr_nonempty [OF ok]
  show ne1: "dailyData \<noteq> []" and ne2: "monthData \<noteq> []"
    unfolding monthData_def y_def m_def by simp_all
  note res = predictMonthHybrid_result [OF ne1 y_def [THEN meta_eq_to_obj_eq]
      m_def [THEN meta_eq_to_obj_eq] monthData_def [THEN meta_eq_to_obj_eq] ne2 refl
      cmpl_def [THEN meta_eq_to_obj_eq] refl avg_def [THEN meta_eq_to_obj_eq]
      branch_def [THEN meta_eq_to_obj_eq]]
  have r: "r = projr (predictMonthHybrid fetch dailyData ty tm td mid)"
    using ok by simp
  show "year r = y" unfolding r res by simp
  show "month r = m" unfolding r res by simp
  show "daysPassedMonth r = length monthData" unfolding r res by simp
  show "daysInCurrentMonth r = getDaysInMonth y m" unfolding r res by simp
  show "isComplete r = cmpl" unfolding r res by simp
  show "valueSource r = (if cmpl then actual else projection)" unfolding r res by simp
  show "totalEnergyMonth r = toFixed 2 (sumEnergy monthData)" unfolding r res by simp
  show "predictedMonthKwh r = toFixed 2 (p_predictedMonthKwh branch)" unfolding r res by simp
  show "averageDailyRate r = toFixed 2 (p_averageDailyRate branch)" unfolding r res by simp
  show "hybrid r = p_hybridMetadata branch" unfolding r res by simp
  show "predictionMode r
          = (case p_hybridMetadata branch of Some md \<Rightarrow> metadataMode md
             | None \<Rightarrow> mode_standard)"
    unfolding r res by simp
  show "confidence r =
           calculateConfidenceHybrid (int (length monthData)) (getDaysInMonth y m)
             (length monthData < 3 \<and> \<not> cmpl) (hasPreviousMonth (p_hybridMetadata branch))"
    unfolding r res by simp
qed

lemma DaysInMonth_bounds: "28 \<le> DaysInMonth y m \<and> DaysInMonth y m \<le> 31"
  by (simp add: DaysInMonth_def)

lemma getDaysInMonth_bounds: "28 \<le> getDaysInMonth y m \<and> getDaysInMonth y m \<le> 31"
  by (simp add: getDaysInMonth_def Let_def DaysInMonth_bounds)

lemma getDaysInMonth_pos: "0 < getDaysInMonth y m"
  using getDaysInMonth_bounds [of y m] by arith

text \<open>
  The completeness check of the previous month, made on doubles, decides what the exact
  quotient would: the series covers less than half of the days of the month.
\<close>

lemma binary64_below_half: "binary64 (binary64 (15 / 31) * 100) < 50"
  by code_simp

lemma dataCompleteness_half:
  "(dataCompleteness ds (getDaysInMonth y m) < 50)
     = (2 * int (length ds) < getDaysInMonth y m)"
proof -
  let ?n = "length ds" and ?d = "getDaysInMonth y m"
  let ?q = "(of_nat ?n :: rat) / of_int ?d"
  have pos: "(0::rat) < of_int ?d"
    using getDaysInMonth_pos [of y m] by simp
  have q0: "0 \<le> ?q" using pos by simp
  have v: "dataCompleteness ds ?d = binary64 (binary64 ?q * 100)"
    by (simp add: dataCompleteness_def divide64_def times64_def)
  show ?thesis
  proof (cases "2 * int ?n < ?d")
    case True
    with getDaysInMonth_bounds [of y m] have "31 * int ?n \<le> 15 * ?d" by linarith
    then have "(of_int (31 * int ?n) :: rat) \<le> of_int (15 * ?d)"
      by (simp only: of_int_le_iff)
    then have "31 * (of_nat ?n :: rat) \<le> 15 * of_int ?d" by simp
    then have "?q \<le> 15 / 31" using pos by (simp add: pos_divide_le_eq)
    from binary64_mono [OF q0 this] have "binary64 ?q * 100 \<le> binary64 (15 / 31) * 100"
      by simp
    moreover have "0 \<le> binary64 ?q * 100"
      using binary64_nonneg [OF q0] by simp
    ultimately have "binary64 (binary64 ?q * 100) \<le> binary64 (binary64 (15 / 31) * 100)"
      by (intro binary64_mono)
    with binary64_below_half True show ?thesis unfolding v by simp
  next
    case False
    then have "?d \<le> 2 * int ?n" by simp
    then have "(of_int ?d :: rat) \<le> of_int (2 * int ?n)"
      by (simp only: of_int_le_iff)
    then have "(of_int ?d :: rat) \<le> 2 * of_nat ?n" by simp
    then have "1 / 2 \<le> ?q" using pos by (simp add: pos_le_divide_eq)
    from binary64_mono [OF _ this] have "1 / 2 \<le> binary64 ?q"
      by (simp add: binary64_numerals)
    then have "50 \<le> binary64 ?q * 100" by simp
    from binary64_mono [OF _ this] have "50 \<le> binary64 (binary64 ?q * 100)"
      by (simp add: binary64_numerals)
    with False show ?thesis unfolding v by simp
  qed
qed

lemma loadPreviousMonthData_Some_iff:
  "loadPreviousMonthData fetch py pm mid = Some ds \<longleftrightarrow>
     (\<exists>rows. fetch (fst (getMonthRange py pm)) (snd (getMonthRange py pm)) mid = Some rows
        \<and> rows \<noteq> [] \<and> ds = calculateDailyTotals (calculateHourlyTotals rows)
        \<and> getDaysInMonth py pm \<le> 2 * int (length ds))"
  by (auto simp add: loadPreviousMonthData_def Let_def dataCompleteness_half
      split: option.splits)

lemma loadPreviousMonthData_None_iff:
  "loadPreviousMonthData fetch py pm mid = None \<longleftrightarrow>
     fetch (fst (getMonthRange py pm)) (snd (getMonthRange py pm)) mid = None
     \<or> fetch (fst (getMonthRange py pm)) (snd (getMonthRange py pm)) mid = Some []
     \<or> (\<exists>rows. fetch (fst (getMonthRange py pm)) (snd (getMonthRange py pm)) mid = Some rows
          \<and> 2 * int (length (calculateDailyTotals (calculateHourlyTotals rows)))
               < getDaysInMonth py pm)"
  by (auto simp add: loadPreviousMonthData_def Let_def dataCompleteness_half
      split: option.splits)

lemma loadPreviousMonthData_nonempty:
  assumes "loadPreviousMonthData fetch py pm mid = Some ds"
  shows "0 < length ds"
proof -
  from assms have "getDaysInMonth py pm \<le> 2 * int (length ds)"
    by (auto simp add: loadPreviousMonthData_Some_iff)
  with getDaysInMonth_pos [of py pm] show ?thesis by (cases ds) simp_all
qed

lemma decideMode_standard:
  assumes "\<not> useHybrid"
  shows "decideMode fetch mid y m useHybrid c t a n d = standardMode c t a d"
  using assms by (simp add: decideMode_def)

lemma decideMode_fallback:
  assumes "useHybrid"
    and "loadPreviousMonthData fetch (fst (getPreviousMonth y m)) (snd (getPreviousMonth y m))
           mid = None"
  shows "decideMode fetch mid y m useHybrid c t a n d = fallbackMode a d"
  using assms by (simp add: decideMode_def Let_def)

lemma decideMode_hybrid:
  assumes "useHybrid"
    and "loadPreviousMonthData fetch (fst (getPreviousMonth y m)) (snd (getPreviousMonth y m))
           mid = Some pd"
  shows "decideMode fetch mid y m useHybrid c t a n d
           = hybridMode (fst (getPreviousMonth y m)) (snd (getPreviousMonth y m)) pd t a n d"
  using assms loadPreviousMonthData_nonempty [OF assms(2)] by (simp add: decideMode_def Let_def)

lemma branch_modes:
  "p_hybridMetadata (standardMode c t a d) = None"
  "p_hybridMetadata (fallbackMode a d) = Some (FallbackMeta ''Previous month data not available''
              ''Prediction based on limited current month data only'')"
  "\<exists>pmS cmS w h i. p_hybridMetadata (hybridMode py pm pd t a n d)
      = Some (HybridMeta pmS cmS w h i)"
  by (simp_all add: standardMode_def fallbackMode_def hybridMode_def Let_def)

lemma fallbackMode_values:
  "p_predictedMonthKwh (fallbackMode a d) = times64 a (of_int d)"
  "p_averageDailyRate (fallbackMode a d) = a"
  by (simp_all add: fallbackMode_def Let_def)

lemma hybridMode_values:
  "p_predictedMonthKwh (hybridMode py pm pd t a n d) =
     plus64 t
       (times64
          (plus64 (times64 a (binary64 (calculateCurrentMonthWeight (int n))))
             (times64 (divide64 (sumEnergy pd) (of_nat (length pd)))
                (minus64 1 (binary64 (calculateCurrentMonthWeight (int n))))))
          (of_int (max (d - int n) 0)))"
  "p_averageDailyRate (hybridMode py pm pd t a n d) =
     plus64 (times64 a (binary64 (calculateCurrentMonthWeight (int n))))
       (times64 (divide64 (sumEnergy pd) (of_nat (length pd)))
          (minus64 1 (binary64 (calculateCurrentMonthWeight (int n)))))"
  by (simp_all add: hybridMode_def Let_def)

lemma standardMode_values:
  "p_predictedMonthKwh (standardMode c t a d) = (if c then t else times64 a (of_int d))"
  "p_averageDailyRate (standardMode c t a d) = a"
  by (simp_all add: standardMode_def Let_def)

section \<open>The worked examples, evaluated\<close>

lemma december_daily:
  "calculateDailyTotals (calculateHourlyTotals december_readings) =
     map (\<lambda>d. \<lparr>date = (2024, 12, d), energyKwh = 150, hoursCount = 1\<rparr>) [1..31]"
  by code_simp

lemma december_fetched:
  "database_with_december (fst (getMonthRange 2024 12)) (snd (getMonthRange 2024 12)) ''M1''
     = Some december_readings"
  by (simp add: database_with_december_def getMonthRange_def)

lemma december_loaded:
  "loadPreviousMonthData database_with_december 2024 12 ''M1''
     = Some (map (\<lambda>d. \<lparr>date = (2024, 12, d), energyKwh = 150, hoursCount = 1\<rparr>) [1..31])"
proof -
  have dim: "getDaysInMonth 2024 12 = 31" by code_simp
  have ne: "december_readings \<noteq> []" by code_simp
  show ?thesis
    unfolding loadPreviousMonthData_Some_iff
    using december_fetched ne by (simp add: december_daily dim)
qed

lemma january_first_period:
  "targetPeriod january_first (Some 2025) (Some 1) = (2025, 1)"
  "filter (inTargetMonth 2025 1 (Some 1)) january_first = january_first"
  "getDaysInMonth 2025 1 = 31"
  "getPreviousMonth 2025 1 = (2024, 12)"
  "length january_first = 1"
  by (simp_all add: targetPeriod_def inTargetMonth_def january_first_def getDaysInMonth_def
      MakeFullYear_def DaysInMonth_def getPreviousMonth_def)

lemma january_first_total:
  "sumEnergy january_first = 85"
  "divide64 85 1 = 85"
  by code_simp+

lemma december_average:
  "divide64
     (sumEnergy (map (\<lambda>d. \<lparr>date = (2024, 12, d), energyKwh = 150, hoursCount = 1\<rparr>) [1..31]))
     (of_nat (length (map (\<lambda>d. \<lparr>date = (2024, 12, d), energyKwh = 150, hoursCount = 1\<rparr>)
          [1..31::int]))) = 150"
  by code_simp

lemma january_blend:
  "plus64 (times64 85 (binary64 (3 / 10))) (times64 150 (minus64 1 (binary64 (3 / 10))))
     = 261 / 2"
  "plus64 85 (times64 (261 / 2) 30) = 4000"
  "times64 85 31 = 2635"
  by code_simp+

lemma toFixed_examples:
  "toFixed 2 4000 = 4000" "toFixed 2 2635 = 2635" "toFixed 2 (261 / 2) = 261 / 2"
  "toFixed 2 85 = 85"
  by code_simp+

lemma scenario_hybrid:
  "\<exists>r. predictMonthHybrid database_with_december january_first
          (Some 2025) (Some 1) (Some 1) ''M1'' = Inr r
       \<and> predictionMode r = mode_hybrid \<and> predictedMonthKwh r = 4000"
proof -
  have ne: "january_first \<noteq> []" by (simp add: january_first_def)
  have y: "2025 = fst (targetPeriod january_first (Some 2025) (Some 1))"
    and m: "1 = snd (targetPeriod january_first (Some 2025) (Some 1))"
    by (simp_all add: january_first_period)
  have md: "january_first = filter (inTargetMonth 2025 1 (Some 1)) january_first"
    by (simp add: january_first_period)
  note res = predictMonthHybrid_result [OF ne y m md ne refl refl refl refl refl,
      of database_with_december "''M1''"]
  have u: "length january_first < 3 \<and> \<not> getDaysInMonth 2025 1
       \<le> (case Some 1 of Some c \<Rightarrow> c | None \<Rightarrow> int (length january_first))"
    by (simp add: january_first_period)
  have load: "loadPreviousMonthData database_with_december (fst (getPreviousMonth 2025 1))
      (snd (getPreviousMonth 2025 1)) ''M1''
     = Some (map (\<lambda>d. \<lparr>date = (2024, 12, d), energyKwh = 150, hoursCount = 1\<rparr>) [1..31])"
    by (simp add: january_first_period december_loaded)
  note dm = decideMode_hybrid [OF u load]
  obtain pmS cmS w h i where hm: "p_hybridMetadata (hybridMode (fst (getPreviousMonth 2025 1))
        (snd (getPreviousMonth 2025 1))
        (map (\<lambda>d. \<lparr>date = (2024, 12, d), energyKwh = 150, hoursCount = 1\<rparr>) [1..31])
        (sumEnergy january_first)
        (divide64 (sumEnergy january_first) (of_nat (length january_first)))
        (length january_first) (getDaysInMonth 2025 1)) = Some (HybridMeta pmS cmS w h i)"
    using branch_modes(3) by blast
  have v: "p_predictedMonthKwh (hybridMode (fst (getPreviousMonth 2025 1))
        (snd (getPreviousMonth 2025 1))
        (map (\<lambda>d. \<lparr>date = (2024, 12, d), energyKwh = 150, hoursCount = 1\<rparr>) [1..31])
        (sumEnergy january_first)
        (divide64 (sumEnergy january_first) (of_nat (length january_first)))
        (length january_first) (getDaysInMonth 2025 1)) = 4000"
    unfolding hybridMode_values(1) december_average
    by (simp add: january_first_period january_first_total calculateCurrentMonthWeight_cases
        january_blend)
  show ?thesis
    unfolding res dm using hm v by (simp add: toFixed_examples)
qed

section \<open>Which mode a prediction reports\<close>

text \<open>
  C2. Every successful prediction reports its path: mode hybrid only with fewer than 3
  observed days, an incomplete month, and a previous-month fetch that returned readings
  whose daily series covers at least half of the days of the previous month; mode
  \<open>standard_fallback\<close> only with fewer than 3 observed days, an incomplete month, and a
  previous-month fetch that failed, returned nothing, or covers less than half of the
  days; mode standard only with 3 or more observed days or a complete month.
\<close>

theorem prediction_mode_discriminates:
  assumes "predictMonthHybrid fetch dailyData ty tm td mid = Inr r"
  shows
    "(let prev = getPreviousMonth (year r) (month r);
          range = getMonthRange (fst prev) (snd prev);
          fetched = fetch (fst range) (snd range) mid
      in (predictionMode r = mode_hybrid \<longrightarrow>
            daysPassedMonth r < 3 \<and> \<not> isComplete r
            \<and> (\<exists>rows. fetched = Some rows \<and> rows \<noteq> []
                 \<and> getDaysInMonth (fst prev) (snd prev)
                     \<le> 2 * int (length (calculateDailyTotals (calculateHourlyTotals rows)))))
       \<and> (predictionMode r = mode_standard_fallback \<longrightarrow>
            daysPassedMonth r < 3 \<and> \<not> isComplete r
            \<and> (fetched = None \<or> fetched = Some []
                \<or> (\<exists>rows. fetched = Some rows
                     \<and> 2 * int (length (calculateDailyTotals (calculateHourlyTotals rows)))
                          < getDaysInMonth (fst prev) (snd prev))))
       \<and> (predictionMode r = mode_standard \<longrightarrow> 3 \<le> daysPassedMonth r \<or> isComplete r))"
proof -
  note f = predictMonthHybrid_fields [OF assms]
  let ?y = "fst (targetPeriod dailyData ty tm)" and ?m = "snd (targetPeriod dailyData ty tm)"
  let ?py = "fst (getPreviousMonth ?y ?m)" and ?pm = "snd (getPreviousMonth ?y ?m)"
  show ?thesis
  proof (cases "daysPassedMonth r < 3 \<and> \<not> isComplete r")
    case False
    then have u: "\<not> (length (filter (inTargetMonth ?y ?m td) dailyData) < 3
        \<and> \<not> getDaysInMonth ?y ?m \<le> (case td of Some c \<Rightarrow> c
             | None \<Rightarrow> int (length (filter (inTargetMonth ?y ?m td) dailyData))))"
      unfolding f .
    have "predictionMode r = mode_standard"
      unfolding f(13) decideMode_standard [OF u] by (simp add: branch_modes)
    with False show ?thesis by (auto simp add: Let_def)
  next
    case True
    then have u: "length (filter (inTargetMonth ?y ?m td) dailyData) < 3
        \<and> \<not> getDaysInMonth ?y ?m \<le> (case td of Some c \<Rightarrow> c
             | None \<Rightarrow> int (length (filter (inTargetMonth ?y ?m td) dailyData)))"
      unfolding f .
    show ?thesis
    proof (cases "loadPreviousMonthData fetch ?py ?pm mid")
      case None
      have "predictionMode r = mode_standard_fallback"
        unfolding f(13) decideMode_fallback [OF u None] by (simp add: branch_modes)
      with True None [unfolded loadPreviousMonthData_None_iff] show ?thesis
        unfolding Let_def f(3,4) by simp
    next
      case (Some pd)
      obtain pmS cmS w h i where hm: "p_hybridMetadata (hybridMode ?py ?pm pd
          (sumEnergy (filter (inTargetMonth ?y ?m td) dailyData))
          (divide64 (sumEnergy (filter (inTargetMonth ?y ?m td) dailyData))
             (of_nat (length (filter (inTargetMonth ?y ?m td) dailyData))))
          (length (filter (inTargetMonth ?y ?m td) dailyData)) (getDaysInMonth ?y ?m))
          = Some (HybridMeta pmS cmS w h i)"
        using branch_modes(3) by blast
      have "predictionMode r = mode_hybrid"
        unfolding f(13) decideMode_hybrid [OF u Some] hm by simp
      with True Some [unfolded loadPreviousMonthData_Some_iff] show ?thesis
        unfolding Let_def f(3,4) by auto
    qed
  qed
qed

theorem prediction_mode_discriminates_witness:
  "\<exists>r. predictMonthHybrid database_with_december january_first
             (Some 2025) (Some 1) (Some 1) ''M1'' = Inr r
     \<and> predictionMode r = mode_hybrid \<and> daysPassedMonth r < 3 \<and> \<not> isComplete r"
proof -
  from scenario_hybrid obtain r where r: "predictMonthHybrid database_with_december
      january_first (Some 2025) (Some 1) (Some 1) ''M1'' = Inr r" "predictionMode r = mode_hybrid"
    by blast
  from prediction_mode_discriminates [OF r(1)] r show ?thesis
    by (auto simp add: Let_def)
qed

section \<open>The three projections\<close>

text \<open>
  C3. Whenever the hybrid path is entered (at least one and fewer than 3 observed days, the
  month not complete) and the fetch of the previous month fails, returns no reading, or
  returns readings whose daily series covers less than half of the days of the previous
  month, the prediction still succeeds: its mode is \<open>standard_fallback\<close>, the predicted
  total that step 5 computes is the current daily average times the days of the month, a
  product of two doubles, the hybrid detail carries the reason, and the field returned is
  the predicted total as \<^verbatim>\<open>toFixed(2)\<close> prints it.
\<close>

theorem unavailable_previous_month_falls_back:
  assumes "dailyData \<noteq> []"
    and y: "y = fst (targetPeriod dailyData ty tm)"
    and m: "m = snd (targetPeriod dailyData ty tm)"
    and md: "monthData = filter (inTargetMonth y m td) dailyData"
    and ne: "monthData \<noteq> []"
    and few: "length monthData < 3"
    and incomplete: "(case td of Some c \<Rightarrow> c | None \<Rightarrow> int (length monthData))
                       < getDaysInMonth y m"
    and py: "py = fst (getPreviousMonth y m)"
    and pm: "pm = snd (getPreviousMonth y m)"
    and fetched: "fetched = fetch (fst (getMonthRange py pm)) (snd (getMonthRange py pm)) mid"
    and unavailable:
      "fetched = None \<or> fetched = Some []
       \<or> (\<exists>rows. fetched = Some rows
            \<and> 2 * int (length (calculateDailyTotals (calculateHourlyTotals rows)))
                 < getDaysInMonth py pm)"
    and tc: "totalCurrent = sumEnergy monthData"
    and ac: "avgCurrent = divide64 totalCurrent (of_nat (length monthData))"
    and s5: "step5 = decideMode fetch mid y m True False totalCurrent avgCurrent
                       (length monthData) (getDaysInMonth y m)"
  shows "\<exists>r. predictMonthHybrid fetch dailyData ty tm td mid = Inr r
           \<and> predictionMode r = mode_standard_fallback
           \<and> p_predictedMonthKwh step5 = times64 avgCurrent (of_int (getDaysInMonth y m))
           \<and> predictedMonthKwh r = toFixed 2 (p_predictedMonthKwh step5)
           \<and> hybrid r = Some (FallbackMeta ''Previous month data not available''
                                ''Prediction based on limited current month data only'')"
proof -
  have load: "loadPreviousMonthData fetch (fst (getPreviousMonth y m))
      (snd (getPreviousMonth y m)) mid = None"
    using unavailable unfolding fetched loadPreviousMonthData_None_iff py pm .
  have c: "False = (getDaysInMonth y m
       \<le> (case td of Some c \<Rightarrow> c | None \<Rightarrow> int (length monthData)))"
    using incomplete by simp
  have u: "True = (length monthData < 3 \<and> \<not> False)"
    using few by simp
  note res = predictMonthHybrid_result [OF assms(1) y m md ne refl c u ac [unfolded tc]
      s5 [unfolded tc]]
  have dm: "step5 = fallbackMode avgCurrent (getDaysInMonth y m)"
    unfolding s5 by (rule decideMode_fallback [OF TrueI load])
  show ?thesis
    unfolding res by (simp add: dm fallbackMode_values branch_modes)
qed

theorem unavailable_previous_month_falls_back_witness:
  "\<exists>r. predictMonthHybrid database_without_history january_first
             (Some 2025) (Some 1) (Some 1) ''M1'' = Inr r
     \<and> predictionMode r = mode_standard_fallback
     \<and> p_predictedMonthKwh (decideMode database_without_history ''M1'' 2025 1 True False
          85 85 1 31) = 2635
     \<and> predictedMonthKwh r = 2635
     \<and> hybrid r = Some (FallbackMeta ''Previous month data not available''
                                ''Prediction based on limited current month data only'')"
proof -
  have ne: "january_first \<noteq> []" by (simp add: january_first_def)
  have y: "2025 = fst (targetPeriod january_first (Some 2025) (Some 1))"
    and m: "1 = snd (targetPeriod january_first (Some 2025) (Some 1))"
    by (simp_all add: january_first_period)
  have md: "january_first = filter (inTargetMonth 2025 1 (Some 1)) january_first"
    by (simp add: january_first_period)
  have few: "length january_first < 3" by (simp add: january_first_period)
  have incomplete:
    "(case Some 1 of Some c \<Rightarrow> c | None \<Rightarrow> int (length january_first)) < getDaysInMonth 2025 1"
    by (simp add: january_first_period)
  have unavailable: "database_without_history (fst (getMonthRange 2024 12))
      (snd (getMonthRange 2024 12)) ''M1'' = None \<or> database_without_history
      (fst (getMonthRange 2024 12)) (snd (getMonthRange 2024 12)) ''M1'' = Some []
    \<or> (\<exists>rows. database_without_history (fst (getMonthRange 2024 12))
           (snd (getMonthRange 2024 12)) ''M1'' = Some rows
         \<and> 2 * int (length (calculateDailyTotals (calculateHourlyTotals rows)))
             < getDaysInMonth 2024 12)"
    by (simp add: database_without_history_def)
  have py: "2024 = fst (getPreviousMonth 2025 1)" and pm: "12 = snd (getPreviousMonth 2025 1)"
    by (simp_all add: january_first_period)
  from unavailable_previous_month_falls_back [where fetch = database_without_history
      and mid = "''M1''", OF ne y m md ne few incomplete py pm refl unavailable refl refl refl]
  show ?thesis
    by (auto simp add: january_first_period january_first_total january_blend toFixed_examples)
qed

text \<open>
  The product is a double and is rounded as such before \<^verbatim>\<open>toFixed\<close> reads it: one day of
  0.005 kWh gives 0.15, the exact product 0.155 would give 0.16.
\<close>

lemma fallback_product_is_a_double:
  "map_sum id predictedMonthKwh
     (predictMonthHybrid database_without_history
        [\<lparr>date = (2025, 1, 1), energyKwh = binary64 (5 / 1000), hoursCount = 24\<rparr>]
        (Some 2025) (Some 1) None ''M1'') = Inr (binary64 (15 / 100))"
  by code_simp

text \<open>
  C1, as amended. In hybrid mode (at least one and fewer than 3 observed days, the month
  not complete, the previous month fetched and covering at least half of its days) the
  prediction succeeds, step 5 computes \<open>avgHybrid = avgCurrent * weightCurrent + avgPrevious
  * weightPrevious\<close> and \<open>predicted = totalCurrent + avgHybrid * max (daysInPeriod -
  daysObserved) 0\<close>, each operation on doubles, and the fields returned are these numbers as
  \<^verbatim>\<open>toFixed(2)\<close> prints them. For one observed day of 85.0 kWh in a 31-day month after a
  month of 150.0 kWh a day this is 85 + 130.5 * 30 = 4000.0 (not 4000.5).
\<close>

theorem hybrid_blend_keeps_observed_total:
  assumes "dailyData \<noteq> []"
    and y: "y = fst (targetPeriod dailyData ty tm)"
    and m: "m = snd (targetPeriod dailyData ty tm)"
    and md: "monthData = filter (inTargetMonth y m td) dailyData"
    and ne: "monthData \<noteq> []"
    and few: "length monthData < 3"
    and incomplete: "(case td of Some c \<Rightarrow> c | None \<Rightarrow> int (length monthData))
                       < getDaysInMonth y m"
    and py: "py = fst (getPreviousMonth y m)"
    and pm: "pm = snd (getPreviousMonth y m)"
    and fetched: "fetch (fst (getMonthRange py pm)) (snd (getMonthRange py pm)) mid = Some rows"
    and rows: "rows \<noteq> []"
    and prev: "previousMonthData = calculateDailyTotals (calculateHourlyTotals rows)"
    and half: "getDaysInMonth py pm \<le> 2 * int (length previousMonthData)"
    and tc: "totalCurrent = sumEnergy monthData"
    and ac: "avgCurrent = divide64 totalCurrent (of_nat (length monthData))"
    and ap: "avgPrevious
               = divide64 (sumEnergy previousMonthData) (of_nat (length previousMonthData))"
    and wc: "weightCurrent = binary64 (calculateCurrentMonthWeight (int (length monthData)))"
    and wp: "weightPrevious = minus64 1 weightCurrent"
    and ah: "avgHybrid
               = plus64 (times64 avgCurrent weightCurrent) (times64 avgPrevious weightPrevious)"
    and s5: "step5 = decideMode fetch mid y m True False totalCurrent avgCurrent
                       (length monthData) (getDaysInMonth y m)"
  shows "\<exists>r. predictMonthHybrid fetch dailyData ty tm td mid = Inr r
           \<and> predictionMode r = mode_hybrid
           \<and> p_averageDailyRate step5 = avgHybrid
           \<and> p_predictedMonthKwh step5
               = plus64 totalCurrent
                   (times64 avgHybrid
                      (of_int (max (getDaysInMonth y m - int (length monthData)) 0)))
           \<and> predictedMonthKwh r = toFixed 2 (p_predictedMonthKwh step5)
           \<and> averageDailyRate r = toFixed 2 avgHybrid
           \<and> totalEnergyMonth r = toFixed 2 totalCurrent"
proof -
  have load: "loadPreviousMonthData fetch (fst (getPreviousMonth y m))
      (snd (getPreviousMonth y m)) mid = Some previousMonthData"
    unfolding loadPreviousMonthData_Some_iff py [symmetric] pm [symmetric]
    using fetched rows prev half by blast
  have c: "False = (getDaysInMonth y m
       \<le> (case td of Some c \<Rightarrow> c | None \<Rightarrow> int (length monthData)))"
    using incomplete by simp
  have u: "True = (length monthData < 3 \<and> \<not> False)"
    using few by simp
  note res = predictMonthHybrid_result [OF assms(1) y m md ne refl c u ac [unfolded tc]
      s5 [unfolded tc]]
  have dm: "step5 = hybridMode (fst (getPreviousMonth y m)) (snd (getPreviousMonth y m))
      previousMonthData totalCurrent avgCurrent (length monthData) (getDaysInMonth y m)"
    unfolding s5 by (rule decideMode_hybrid [OF TrueI load])
  obtain pmS cmS w h i where hm: "p_hybridMetadata step5 = Some (HybridMeta pmS cmS w h i)"
    unfolding dm using branch_modes(3) by blast
  have rate: "p_averageDailyRate step5 = avgHybrid"
    unfolding dm hybridMode_values ah wp wc ap ..
  have total: "p_predictedMonthKwh step5
      = plus64 totalCurrent
          (times64 avgHybrid (of_int (max (getDaysInMonth y m - int (length monthData)) 0)))"
    unfolding dm hybridMode_values ah wp wc ap ..
  show ?thesis
    unfolding res using hm rate total by (simp add: tc)
qed

theorem hybrid_blend_keeps_observed_total_witness:
  "\<exists>r. predictMonthHybrid database_with_december january_first
             (Some 2025) (Some 1) (Some 1) ''M1'' = Inr r
     \<and> predictionMode r = mode_hybrid
     \<and> p_averageDailyRate (decideMode database_with_december ''M1'' 2025 1 True False
          85 85 1 31) = 261 / 2
     \<and> p_predictedMonthKwh (decideMode database_with_december ''M1'' 2025 1 True False
          85 85 1 31) = 4000
     \<and> predictedMonthKwh r = 4000"
proof -
  have ne: "january_first \<noteq> []" by (simp add: january_first_def)
  have y: "2025 = fst (targetPeriod january_first (Some 2025) (Some 1))"
    and m: "1 = snd (targetPeriod january_first (Some 2025) (Some 1))"
    by (simp_all add: january_first_period)
  have md: "january_first = filter (inTargetMonth 2025 1 (Some 1)) january_first"
    by (simp add: january_first_period)
  have few: "length january_first < 3" by (simp add: january_first_period)
  have incomplete:
    "(case Some 1 of Some c \<Rightarrow> c | None \<Rightarrow> int (length january_first)) < getDaysInMonth 2025 1"
    by (simp add: january_first_period)
  have py: "2024 = fst (getPreviousMonth 2025 1)" and pm: "12 = snd (getPreviousMonth 2025 1)"
    by (simp_all add: january_first_period)
  have rows: "december_readings \<noteq> []" by code_simp
  have half: "getDaysInMonth 2024 12
      \<le> 2 * int (length (calculateDailyTotals (calculateHourlyTotals december_readings)))"
    by (simp add: december_daily) code_simp
  from hybrid_blend_keeps_observed_total [where fetch = database_with_december
      and mid = "''M1''", OF ne y m md ne few incomplete py pm december_fetched rows refl half
      refl refl refl refl refl refl refl]
  show ?thesis
    unfolding december_daily december_average
    by (auto simp add: january_first_period january_first_total
        calculateCurrentMonthWeight_cases january_blend toFixed_examples)
qed

text \<open>
  The example of the claim as stated: step 5 computes 4000.0, the prediction returned is
  4000.0, and neither is 4000.5.
\<close>

theorem hybrid_example_counterexample:
  "map_sum id predictedMonthKwh
     (predictMonthHybrid database_with_december january_first
        (Some 2025) (Some 1) (Some 1) ''M1'') = Inr 4000
   \<and> plus64 85
       (times64
          (plus64 (times64 85 (binary64 (calculateCurrentMonthWeight 1)))
             (times64 150 (minus64 1 (binary64 (calculateCurrentMonthWeight 1)))))
          (of_int (max (31 - 1) 0))) = 4000
   \<and> (4000 :: rat) \<noteq> 4000.5"
proof -
  from scenario_hybrid obtain r where "predictMonthHybrid database_with_december january_first
             (Some 2025) (Some 1) (Some 1) ''M1'' = Inr r" "predictedMonthKwh r = 4000"
    by blast
  then show ?thesis
    by (simp add: calculateCurrentMonthWeight_cases january_blend)
qed

text \<open>
  Every operation of the blend rounds to a double before the next one reads it: one day of
  50.0015 kWh after a December of 150 kWh a day is returned as 3650.01, where the same
  formula without the intermediate roundings would print 3650.02.
\<close>

lemma hybrid_blend_is_rounded_per_operation:
  "toFixed 2
     (plus64 (binary64 (500015 / 10000))
        (times64
           (plus64 (times64 (binary64 (500015 / 10000)) (binary64 (3 / 10)))
              (times64 150 (minus64 1 (binary64 (3 / 10)))))
           30)) = binary64 (365001 / 100)"
  "toFixedValue 2 (500015 / 10000 + (500015 / 10000 * (3 / 10) + 150 * (7 / 10)) * 30)
     = 365002 / 100"
  by code_simp+

section \<open>Completeness of the month\<close>

lemma predictMonthHybrid_succeeds:
  assumes "dailyData \<noteq> []"
    and "filter (inTargetMonth (fst (targetPeriod dailyData ty tm))
           (snd (targetPeriod dailyData ty tm)) td) dailyData \<noteq> []"
  shows "\<exists>r. predictMonthHybrid fetch dailyData ty tm td mid = Inr r"
  using predictMonthHybrid_result [OF assms(1) refl refl refl assms(2) refl refl refl refl refl,
      of fetch mid]
  by blast

lemma january_fifth_period:
  "targetPeriod january_fifth (Some 2025) (Some 1) = (2025, 1)"
  "filter (inTargetMonth 2025 1 (Some 31)) january_fifth = january_fifth"
  "length january_fifth = 1"
  "january_fifth \<noteq> []"
  by (simp_all add: targetPeriod_def inTargetMonth_def january_fifth_def)

lemma scenario_cutoff:
  "\<exists>r. predictMonthHybrid database_without_history january_fifth
          (Some 2025) (Some 1) (Some 31) ''M1'' = Inr r"
  by (rule predictMonthHybrid_succeeds) (simp_all add: january_fifth_period)

text \<open>
  C5, as amended. For every returned prediction, \<open>isComplete\<close> is true exactly when the
  effective day limit (the cutoff day when one is given, the number of observed days of
  the period otherwise) is at least the number of days of the period, and \<open>valueSource\<close>
  is \<open>actual\<close> when \<open>isComplete\<close> and \<open>projection\<close> otherwise.
\<close>

theorem isComplete_by_effective_day_limit:
  assumes "predictMonthHybrid fetch dailyData ty tm td mid = Inr r"
  shows "daysPassedMonth r = length (filter (inTargetMonth (year r) (month r) td) dailyData)
    \<and> daysInCurrentMonth r = getDaysInMonth (year r) (month r)
    \<and> isComplete r
        = (daysInCurrentMonth r \<le> (case td of Some c \<Rightarrow> c | None \<Rightarrow> int (daysPassedMonth r)))
    \<and> valueSource r = (if isComplete r then actual else projection)"
  by (simp add: predictMonthHybrid_fields [OF assms] split: option.splits)

theorem isComplete_by_effective_day_limit_witness:
  "\<exists>r. predictMonthHybrid database_without_history january_fifth
          (Some 2025) (Some 1) (Some 31) ''M1'' = Inr r
     \<and> daysPassedMonth r = 1 \<and> daysInCurrentMonth r = 31
     \<and> isComplete r \<and> valueSource r = actual"
proof -
  from scenario_cutoff obtain r where r: "predictMonthHybrid database_without_history
      january_fifth (Some 2025) (Some 1) (Some 31) ''M1'' = Inr r"
    by blast
  have ym: "year r = 2025" "month r = 1"
    using predictMonthHybrid_fields(3,4) [OF r] by (simp_all add: january_fifth_period)
  from isComplete_by_effective_day_limit [OF r] r show ?thesis
    by (simp add: ym january_fifth_period january_first_period)
qed

text \<open>
  With a cutoff day the claim as stated fails: one observed day (January 5th) and cutoff
  day 31 give a complete month, although 1 observed day is less than 31.
\<close>

theorem isComplete_with_one_observed_day_counterexample:
  "\<not> isl (predictMonthHybrid database_without_history january_fifth
          (Some 2025) (Some 1) (Some 31) ''M1'')
   \<and> isComplete (projr (predictMonthHybrid database_without_history january_fifth
          (Some 2025) (Some 1) (Some 31) ''M1''))
   \<and> int (daysPassedMonth (projr (predictMonthHybrid database_without_history january_fifth
          (Some 2025) (Some 1) (Some 31) ''M1'')))
       < daysInCurrentMonth (projr (predictMonthHybrid database_without_history january_fifth
          (Some 2025) (Some 1) (Some 31) ''M1''))"
proof -
  from scenario_cutoff obtain r where r: "predictMonthHybrid database_without_history
      january_fifth (Some 2025) (Some 1) (Some 31) ''M1'' = Inr r"
    by blast
  note f = predictMonthHybrid_fields [OF r]
  show ?thesis unfolding r
    by (simp add: f january_fifth_period january_first_period)
qed

section \<open>The message for a month without data\<close>






section \<open>Predictions of non-negative series\<close>

lemma plus64_nonneg [simp]:
  assumes "0 \<le> a" and "0 \<le> b"
  shows "0 \<le> plus64 a b"
  unfolding plus64_def using assms by (intro binary64_nonneg) simp

lemma times64_nonneg:
  assumes "0 \<le> a" and "0 \<le> b"
  shows "0 \<le> times64 a b"
  unfolding times64_def using assms by (intro binary64_nonneg) simp

lemma divide64_nonneg:
  assumes "0 \<le> a" and "0 \<le> b"
  shows "0 \<le> divide64 a b"
  unfolding divide64_def using assms by (intro binary64_nonneg) simp

lemma toFixedDigits_nonneg: "0 \<le> toFixedDigits f x"
  by (simp add: toFixedDigits_def zero_le_floor)

lemma toFixedDigits_mono:
  assumes "0 \<le> x" and "x \<le> y"
  shows "toFixedDigits f x \<le> toFixedDigits f y"
  unfolding toFixedDigits_def using assms
  by (intro floor_mono) (simp add: mult_right_mono)

lemma toFixed_small:
  assumes "0 \<le> x" and "\<not> 10 ^ 21 \<le> \<bar>x\<bar>"
  shows "toFixed f x = (if x = 0 then 0 else binary64 (of_int (toFixedDigits f x) / 10 ^ f))"
  using assms by (simp add: toFixed_def)

lemma toFixed_nonneg:
  assumes "0 \<le> x"
  shows "0 \<le> toFixed f x"
proof (cases "10 ^ 21 \<le> \<bar>x\<bar>")
  case True
  with assms show ?thesis by (simp add: toFixed_def)
next
  case False
  have "(0::rat) \<le> of_int (toFixedDigits f x) / 10 ^ f"
    using toFixedDigits_nonneg [of f x] by simp
  from binary64_nonneg [OF this] show ?thesis
    unfolding toFixed_small [OF assms False] by simp
qed

lemma toFixed_below_threshold:
  fixes x :: rat
  assumes "0 \<le> x" and "x < 10 ^ 21"
  shows "toFixed f x \<le> 10 ^ 21"
proof -
  have small: "\<not> 10 ^ 21 \<le> \<bar>x\<bar>" using assms by simp
  have "x * 10 ^ f + 1 / 2 < 10 ^ 21 * 10 ^ f + 1"
    using assms(2) by (simp add: add_strict_mono)
  then have "\<bar>x\<bar> * 10 ^ f + 1 / 2 < of_int (10 ^ 21 * 10 ^ f) + 1"
    using assms(1) by simp
  then have "toFixedDigits f x \<le> 10 ^ 21 * 10 ^ f"
    unfolding toFixedDigits_def by (simp only: floor_le_iff)
  then have "(of_int (toFixedDigits f x) :: rat) \<le> of_int (10 ^ 21 * 10 ^ f)"
    by (simp only: of_int_le_iff)
  then have q: "(of_int (toFixedDigits f x) :: rat) / 10 ^ f \<le> 10 ^ 21"
    by (simp add: pos_divide_le_eq)
  have "(0::rat) \<le> of_int (toFixedDigits f x) / 10 ^ f"
    using toFixedDigits_nonneg [of f x] by simp
  from binary64_mono [OF this q]
  have "binary64 (of_int (toFixedDigits f x) / 10 ^ f) \<le> 10 ^ 21"
    by (simp only: binary64_numerals)
  then show ?thesis unfolding toFixed_small [OF assms(1) small] by simp
qed

lemma toFixed_mono_nonneg:
  assumes "0 \<le> x" and "x \<le> y"
  shows "toFixed f x \<le> toFixed f y"
proof (cases "10 ^ 21 \<le> \<bar>y\<bar>")
  case ybig: True
  show ?thesis
  proof (cases "10 ^ 21 \<le> \<bar>x\<bar>")
    case True
    with ybig assms show ?thesis by (simp add: toFixed_def)
  next
    case False
    with assms have "x < 10 ^ 21" by simp
    then have a: "toFixed f x \<le> 10 ^ 21"
      by (rule toFixed_below_threshold [OF assms(1)])
    have b: "toFixed f y = y" using ybig by (simp add: toFixed_def)
    have "10 ^ 21 \<le> y" using ybig assms by simp
    with a b show ?thesis by simp
  qed
next
  case ysmall: False
  with assms have xsmall: "\<not> 10 ^ 21 \<le> \<bar>x\<bar>" by simp
  from assms have y0: "0 \<le> y" by simp
  show ?thesis
  proof (cases "x = 0")
    case True
    with toFixed_nonneg [OF y0, of f] show ?thesis by (simp add: toFixed_def)
  next
    case False
    with assms have y: "y \<noteq> 0" by auto
    have "(of_int (toFixedDigits f x) :: rat) \<le> of_int (toFixedDigits f y)"
      using toFixedDigits_mono [OF assms, of f] by (simp only: of_int_le_iff)
    then have le: "(of_int (toFixedDigits f x) :: rat) / 10 ^ f
        \<le> of_int (toFixedDigits f y) / 10 ^ f"
      by (simp add: divide_right_mono)
    have "(0::rat) \<le> of_int (toFixedDigits f x) / 10 ^ f"
      using toFixedDigits_nonneg [of f x] by simp
    from binary64_mono [OF this le] show ?thesis
      unfolding toFixed_small [OF assms(1) xsmall] toFixed_small [OF y0 ysmall]
      using False y by simp
  qed
qed

lemma addReading_nonneg:
  assumes "0 \<le> energy_consumed_kwh row" and "\<forall>h\<in>set hs. 0 \<le> h_energyKwh h"
  shows "\<forall>h\<in>set (addReading row hs). 0 \<le> h_energyKwh h"
  using assms by (induction hs) auto

lemma foldl_addReading_nonneg:
  assumes "\<forall>row\<in>set rows. 0 \<le> energy_consumed_kwh row"
    and "\<forall>h\<in>set acc. 0 \<le> h_energyKwh h"
  shows "\<forall>h\<in>set (foldl (\<lambda>hourlyData row. addReading row hourlyData) acc rows).
           0 \<le> h_energyKwh h"
  using assms
proof (induction rows arbitrary: acc)
  case Nil
  then show ?case by simp
next
  case (Cons row rows)
  from Cons.prems have "\<forall>h\<in>set (addReading row acc). 0 \<le> h_energyKwh h"
    by (intro addReading_nonneg) simp_all
  with Cons.prems Cons.IH [of "addReading row acc"] show ?case by simp
qed

lemma calculateHourlyTotals_nonneg:
  assumes "\<forall>row\<in>set rows. 0 \<le> energy_consumed_kwh row"
  shows "\<forall>h\<in>set (calculateHourlyTotals rows). 0 \<le> h_energyKwh h"
  using foldl_addReading_nonneg [OF assms, of "[]"]
  by (simp add: calculateHourlyTotals_def)

lemma addHour_nonneg:
  assumes "0 \<le> h_energyKwh hr" and "\<forall>d\<in>set ds. 0 \<le> energyKwh d"
  shows "\<forall>d\<in>set (addHour hr ds). 0 \<le> energyKwh d"
  using assms by (induction ds) auto

lemma foldl_addHour_nonneg:
  assumes "\<forall>hr\<in>set hrs. 0 \<le> h_energyKwh hr"
    and "\<forall>d\<in>set acc. 0 \<le> energyKwh d"
  shows "\<forall>d\<in>set (foldl (\<lambda>dailyData hr. addHour hr dailyData) acc hrs). 0 \<le> energyKwh d"
  using assms
proof (induction hrs arbitrary: acc)
  case Nil
  then show ?case by simp
next
  case (Cons hr hrs)
  from Cons.prems have "\<forall>d\<in>set (addHour hr acc). 0 \<le> energyKwh d"
    by (intro addHour_nonneg) simp_all
  with Cons.prems Cons.IH [of "addHour hr acc"] show ?case by simp
qed

lemma calculateDailyTotals_nonneg:
  assumes "\<forall>hr\<in>set hrs. 0 \<le> h_energyKwh hr"
  shows "\<forall>d\<in>set (calculateDailyTotals hrs). 0 \<le> energyKwh d"
  using foldl_addHour_nonneg [OF assms, of "[]"]
  by (simp add: calculateDailyTotals_def)

lemma foldl_plus64_nonneg:
  assumes "0 \<le> a" and "\<forall>d\<in>set ds. 0 \<le> energyKwh d"
  shows "0 \<le> foldl (\<lambda>sum d. plus64 sum (energyKwh d)) a ds"
  using assms by (induction ds arbitrary: a) simp_all

lemma sumEnergy_nonneg:
  assumes "\<forall>d\<in>set ds. 0 \<le> energyKwh d"
  shows "0 \<le> sumEnergy ds"
  unfolding sumEnergy_def using assms by (intro foldl_plus64_nonneg) simp_all

text \<open>A sum of non-negative energies is a double.\<close>

lemma sumEnergy_double:
  assumes "\<forall>d\<in>set ds. 0 \<le> energyKwh d"
  shows "binary64 (sumEnergy ds) = sumEnergy ds"
proof (cases ds rule: rev_cases)
  case Nil
  then show ?thesis by (simp add: sumEnergy_def binary64_def)
next
  case (snoc ys y)
  with assms have "0 \<le> sumEnergy ys" "0 \<le> energyKwh y"
    by (simp_all add: sumEnergy_nonneg)
  then have "0 \<le> sumEnergy ys + energyKwh y" by simp
  from binary64_idem [OF this] show ?thesis
    unfolding snoc by (simp add: sumEnergy_def plus64_def)
qed

lemma weight_double_bounds:
  "0 \<le> binary64 (calculateCurrentMonthWeight d)"
  "0 \<le> 1 - binary64 (calculateCurrentMonthWeight d)"
proof -
  have "0 \<le> binary64 (calculateCurrentMonthWeight d)
      \<and> binary64 (calculateCurrentMonthWeight d) \<le> 1"
    using binary64_weights_030 binary64_weights_050
    by (simp add: calculateCurrentMonthWeight_cases Let_def)
  then show "0 \<le> binary64 (calculateCurrentMonthWeight d)"
    and "0 \<le> 1 - binary64 (calculateCurrentMonthWeight d)"
    by simp_all
qed

lemma hybridMode_keeps_total:
  assumes "0 \<le> t" and "binary64 t = t" and "0 \<le> a" and "\<forall>d\<in>set pd. 0 \<le> energyKwh d"
  shows "t \<le> p_predictedMonthKwh (hybridMode py pm pd t a n d)"
proof -
  let ?w = "binary64 (calculateCurrentMonthWeight (int n))"
  have w1: "0 \<le> minus64 1 ?w"
    unfolding minus64_def by (intro binary64_nonneg weight_double_bounds)
  have q: "0 \<le> divide64 (sumEnergy pd) (of_nat (length pd))"
    using sumEnergy_nonneg [OF assms(4)] by (intro divide64_nonneg) simp_all
  have h: "0 \<le> plus64 (times64 a ?w)
      (times64 (divide64 (sumEnergy pd) (of_nat (length pd))) (minus64 1 ?w))"
    by (intro plus64_nonneg times64_nonneg assms(3) weight_double_bounds(1) w1 q)
  have "0 \<le> times64 (plus64 (times64 a ?w)
      (times64 (divide64 (sumEnergy pd) (of_nat (length pd))) (minus64 1 ?w)))
      (of_int (max (d - int n) 0))"
    using h by (intro times64_nonneg) simp_all
  then have "t \<le> t + times64 (plus64 (times64 a ?w)
      (times64 (divide64 (sumEnergy pd) (of_nat (length pd))) (minus64 1 ?w)))
      (of_int (max (d - int n) 0))"
    by simp
  from binary64_mono [OF assms(1) this] show ?thesis
    unfolding hybridMode_values plus64_def assms(2) .
qed

text \<open>
  C10. When all energy values of the series and of the readings fetched for the previous
  month are non-negative, every successful prediction has a non-negative
  \<open>predictedMonthKwh\<close>, and in hybrid mode \<open>predictedMonthKwh\<close> is at least
  \<open>totalEnergyMonth\<close>: the days still to come are never counted negatively, and the
  blended average is not negative. Both fields are read as returned; the rounding of the
  doubles and of \<^verbatim>\<open>toFixed\<close> keeps the order.
\<close>

theorem prediction_not_below_observed_total:
  assumes ok: "predictMonthHybrid fetch dailyData ty tm td mid = Inr r"
    and cur: "\<forall>d\<in>set dailyData. 0 \<le> energyKwh d"
    and prior: "\<forall>start end rows. fetch start end mid = Some rows
                  \<longrightarrow> (\<forall>row\<in>set rows. 0 \<le> energy_consumed_kwh row)"
  shows "0 \<le> predictedMonthKwh r
       \<and> (predictionMode r = mode_hybrid \<longrightarrow> totalEnergyMonth r \<le> predictedMonthKwh r)"
proof -
  note f = predictMonthHybrid_fields [OF ok]
  let ?y = "fst (targetPeriod dailyData ty tm)" and ?m = "snd (targetPeriod dailyData ty tm)"
  let ?md = "filter (inTargetMonth ?y ?m td) dailyData"
  let ?py = "fst (getPreviousMonth ?y ?m)" and ?pm = "snd (getPreviousMonth ?y ?m)"
  let ?avg = "divide64 (sumEnergy ?md) (of_nat (length ?md))"
  let ?c = "getDaysInMonth ?y ?m \<le> (case td of Some c \<Rightarrow> c | None \<Rightarrow> int (length ?md))"
  have nonneg: "\<forall>d\<in>set ?md. 0 \<le> energyKwh d" using cur by simp
  have total: "0 \<le> sumEnergy ?md" using nonneg by (rule sumEnergy_nonneg)
  have avg: "0 \<le> ?avg" using total by (intro divide64_nonneg) simp_all
  have run: "0 \<le> times64 ?avg (of_int (getDaysInMonth ?y ?m))"
    using avg getDaysInMonth_pos [of ?y ?m] by (intro times64_nonneg) simp_all
  show ?thesis
  proof (cases "length ?md < 3 \<and> \<not> ?c")
    case False
    have "predictionMode r = mode_standard"
      unfolding f(13) decideMode_standard [OF False] by (simp add: branch_modes)
    moreover have "predictedMonthKwh r = toFixed 2 (if ?c then sumEnergy ?md
             else times64 ?avg (of_int (getDaysInMonth ?y ?m)))"
      unfolding f(10) decideMode_standard [OF False] by (simp add: standardMode_values)
    ultimately show ?thesis using total run by (simp add: toFixed_nonneg)
  next
    case True
    show ?thesis
    proof (cases "loadPreviousMonthData fetch ?py ?pm mid")
      case None
      have "predictionMode r = mode_standard_fallback"
        unfolding f(13) decideMode_fallback [OF True None] by (simp add: branch_modes)
      moreover have "predictedMonthKwh r
          = toFixed 2 (times64 ?avg (of_int (getDaysInMonth ?y ?m)))"
        unfolding f(10) decideMode_fallback [OF True None] by (simp add: fallbackMode_values)
      ultimately show ?thesis using run by (simp add: toFixed_nonneg)
    next
      case (Some pd)
      from Some obtain rows where rows:
        "fetch (fst (getMonthRange ?py ?pm)) (snd (getMonthRange ?py ?pm)) mid = Some rows"
        "pd = calculateDailyTotals (calculateHourlyTotals rows)"
        unfolding loadPreviousMonthData_Some_iff by blast
      from prior rows(1) have "\<forall>row\<in>set rows. 0 \<le> energy_consumed_kwh row" by blast
      then have pd: "\<forall>d\<in>set pd. 0 \<le> energyKwh d"
        unfolding rows(2)
        by (intro calculateDailyTotals_nonneg calculateHourlyTotals_nonneg)
      have p: "predictedMonthKwh r
          = toFixed 2 (p_predictedMonthKwh (hybridMode ?py ?pm pd (sumEnergy ?md) ?avg
                (length ?md) (getDaysInMonth ?y ?m)))"
        unfolding f(10) decideMode_hybrid [OF True Some] ..
      have le: "sumEnergy ?md \<le> p_predictedMonthKwh (hybridMode ?py ?pm pd (sumEnergy ?md)
                ?avg (length ?md) (getDaysInMonth ?y ?m))"
        using total sumEnergy_double [OF nonneg] avg pd by (rule hybridMode_keeps_total)
      from toFixed_mono_nonneg [OF total le, of 2] toFixed_nonneg [OF total, of 2]
      show ?thesis unfolding p f(9) by simp
    qed
  qed
qed

theorem prediction_not_below_observed_total_witness:
  "\<exists>r. predictMonthHybrid database_with_december january_first
             (Some 2025) (Some 1) (Some 1) ''M1'' = Inr r
     \<and> 0 \<le> predictedMonthKwh r \<and> totalEnergyMonth r \<le> predictedMonthKwh r"
proof -
  from scenario_hybrid obtain r where r: "predictMonthHybrid database_with_december
      january_first (Some 2025) (Some 1) (Some 1) ''M1'' = Inr r" "predictionMode r = mode_hybrid"
    by blast
  have cur: "\<forall>d\<in>set january_first. 0 \<le> energyKwh d"
    by (simp add: january_first_def)
  have prior: "\<forall>start end rows. database_with_december start end ''M1'' = Some rows
                  \<longrightarrow> (\<forall>row\<in>set rows. 0 \<le> energy_consumed_kwh row)"
    by (auto simp add: database_with_december_def december_readings_def)
  from prediction_not_below_observed_total [OF r(1) cur prior] r show ?thesis
    by blast
qed

section \<open>The calendar and the validation of a selection\<close>

lemma div_step:
  fixes a c :: int
  assumes "1 < c"
  shows "(a + 1) div c = a div c + (if (a + 1) mod c = 0 then 1 else 0)"
proof -
  have r: "0 \<le> a mod c" "a mod c < c" using assms by simp_all
  have e: "a + 1 = c * (a div c) + (a mod c + 1)" by simp
  show ?thesis
  proof (cases "a mod c + 1 = c")
    case True
    then have "a + 1 = c * (a div c + 1)" using e by (simp add: algebra_simps)
    then show ?thesis using assms by simp
  next
    case False
    with r have lt: "a mod c + 1 < c" by simp
    have "(a + 1) div c = a div c" 
      using e lt r assms
      by (metis add.commute add_nonneg_nonneg div_mult_self2 div_pos_pos_trivial less_numeral_extra(3) zero_less_one_class.zero_le_one add_0 order_less_trans zero_less_one)
    moreover have "(a + 1) mod c = a mod c + 1"
      using lt r assms by (metis mod_add_left_eq mod_pos_pos_trivial add_nonneg_nonneg zero_less_one_class.zero_le_one)
    ultimately show ?thesis using r by simp
  qed
qed


lemma mod_shift:
  fixes y c k :: int
  assumes "c dvd k"
  shows "((y - k) mod c = 0) = (y mod c = 0)"
  by (metis assms mod_eq_0_iff_dvd mod_eq_dvd_iff)

lemma mod_100_4: "y mod 100 = 0 \<Longrightarrow> y mod 4 = 0" for y :: int
  by auto

lemma mod_400_100: "y mod 400 = 0 \<Longrightarrow> y mod 100 = 0" for y :: int
  by auto

lemma DayFromYear_step:
  "DayFromYear (y + 1) = DayFromYear y + (if InLeapYear y then 366 else 365)"
proof -
  have a: "(y + 1 - 1969) div 4 = (y - 1969) div 4 + (if y mod 4 = 0 then 1 else 0)"
    using div_step [of 4 "y - 1969"] mod_shift [of 4 1968 y] by (simp add: algebra_simps)
  have b: "(y + 1 - 1901) div 100 = (y - 1901) div 100 + (if y mod 100 = 0 then 1 else 0)"
    using div_step [of 100 "y - 1901"] mod_shift [of 100 1900 y] by (simp add: algebra_simps)
  have c: "(y + 1 - 1601) div 400 = (y - 1601) div 400 + (if y mod 400 = 0 then 1 else 0)"
    using div_step [of 400 "y - 1601"] mod_shift [of 400 1600 y] by (simp add: algebra_simps)
  show ?thesis
  proof (cases "y mod 4 = 0")
    case False
    with mod_100_4 [of y] mod_400_100 [of y] have "y mod 100 \<noteq> 0 \<and> y mod 400 \<noteq> 0"
      by auto
    with False show ?thesis
      unfolding DayFromYear_def InLeapYear_def a b c by simp
  next
    case y4: True
    show ?thesis
    proof (cases "y mod 100 = 0")
      case False
      with mod_400_100 [of y] have "y mod 400 \<noteq> 0" by auto
      with False y4 show ?thesis
        unfolding DayFromYear_def InLeapYear_def a b c by simp
    next
      case True
      with y4 show ?thesis
        unfolding DayFromYear_def InLeapYear_def a b c by simp
    qed
  qed
qed

lemma DayFromYear_mono:
  assumes "y \<le> y'"
  shows "DayFromYear y + 365 * (y' - y) \<le> DayFromYear y'"
  using assms
proof (induction y' rule: int_ge_induct)
  case base
  show ?case by simp
next
  case (step i)
  then show ?case by (simp add: DayFromYear_step)
qed

lemma daysBeforeMonth_12:
  "daysBeforeMonth y 12 = (if InLeapYear y then 366 else 365)"
  by (simp add: daysBeforeMonth_def upto.simps DaysInMonth_def)

lemma daysBeforeMonth_0: "daysBeforeMonth y 0 = 0"
  by (simp add: daysBeforeMonth_def)

lemma daysBeforeMonth_step:
  assumes "0 \<le> k"
  shows "daysBeforeMonth y (k + 1) = daysBeforeMonth y k + DaysInMonth y (k + 1)"
  using assms by (simp add: daysBeforeMonth_def upto_rec2)

lemma daysBeforeMonth_mono:
  assumes "0 \<le> j" and "j \<le> k"
  shows "daysBeforeMonth y j \<le> daysBeforeMonth y k"
  using assms(2,1)
proof (induction k rule: int_ge_induct)
  case base
  show ?case by simp
next
  case (step i)
  with DaysInMonth_bounds [of y "i + 1"] show ?case
    by (simp add: daysBeforeMonth_step)
qed


lemma getDaysInMonth_Gregorian:
  assumes "y < 0 \<or> 99 < y" and "1 \<le> m" and "m \<le> 12"
  shows "getDaysInMonth y m = DaysInMonth y m"
proof (cases "m = 12")
  case True
  with assms show ?thesis by (auto simp add: getDaysInMonth_def MakeFullYear_def Let_def)
next
  case False
  with assms have "m div 12 = 0" "m mod 12 = m" "m \<noteq> 0" by simp_all
  with assms show ?thesis by (auto simp add: getDaysInMonth_def MakeFullYear_def Let_def)
qed

lemma utcMidnightMs_day_number:
  assumes "y < 0 \<or> 99 < y" and "1 \<le> m" and "m \<le> 12"
  shows "utcMidnightMs y m d
           = (DayFromYear y + daysBeforeMonth y (m - 1) + d - 1) * 86400000"
proof -
  from assms have "(m - 1) div 12 = 0" "(m - 1) mod 12 = m - 1" by simp_all
  with assms show ?thesis
    by (auto simp add: utcMidnightMs_def Date_UTC_def MakeDay_def MakeFullYear_def msPerDay_def
        Let_def)
qed

lemma day_number_in_year:
  assumes "1 \<le> m" and "m \<le> 12" and "1 \<le> d" and "d \<le> DaysInMonth y m"
  shows "DayFromYear y \<le> DayFromYear y + daysBeforeMonth y (m - 1) + d - 1"
    and "DayFromYear y + daysBeforeMonth y (m - 1) + d - 1 < DayFromYear (y + 1)"
proof -
  have "0 \<le> daysBeforeMonth y (m - 1)"
    using daysBeforeMonth_mono [of 0 "m - 1" y] assms by (simp add: daysBeforeMonth_0)
  with assms show "DayFromYear y \<le> DayFromYear y + daysBeforeMonth y (m - 1) + d - 1"
    by simp
  have "daysBeforeMonth y (m - 1) + d \<le> daysBeforeMonth y m"
    using daysBeforeMonth_step [of "m - 1" y] assms by simp
  also have "\<dots> \<le> daysBeforeMonth y 12"
    using assms by (intro daysBeforeMonth_mono) simp_all
  finally have "daysBeforeMonth y (m - 1) + d \<le> (if InLeapYear y then 366 else 365)"
    by (simp only: daysBeforeMonth_12)
  then show "DayFromYear y + daysBeforeMonth y (m - 1) + d - 1 < DayFromYear (y + 1)"
    unfolding DayFromYear_step by (simp split: if_splits)
qed

lemma day_number_earlier_year:
  assumes "y < y'"
    and "1 \<le> m" "m \<le> 12" "1 \<le> d" "d \<le> DaysInMonth y m"
    and "1 \<le> m'" "m' \<le> 12" "1 \<le> d'" "d' \<le> DaysInMonth y' m'"
  shows "DayFromYear y + daysBeforeMonth y (m - 1) + d - 1
           < DayFromYear y' + daysBeforeMonth y' (m' - 1) + d' - 1"
proof -
  have "DayFromYear y + daysBeforeMonth y (m - 1) + d - 1 < DayFromYear (y + 1)"
    using assms by (intro day_number_in_year)
  also have "\<dots> \<le> DayFromYear y'"
    using DayFromYear_mono [of "y + 1" y'] assms(1) by simp
  also have "\<dots> \<le> DayFromYear y' + daysBeforeMonth y' (m' - 1) + d' - 1"
    using assms by (intro day_number_in_year)
  finally show ?thesis .
qed

lemma day_number_earlier_month:
  assumes "m < m'"
    and "1 \<le> m" "m' \<le> 12" "d \<le> DaysInMonth y m" "1 \<le> d'"
  shows "DayFromYear y + daysBeforeMonth y (m - 1) + d - 1
           < DayFromYear y + daysBeforeMonth y (m' - 1) + d' - 1"
proof -
  have "daysBeforeMonth y (m - 1) + d \<le> daysBeforeMonth y m"
    using daysBeforeMonth_step [of "m - 1" y] assms by simp
  also have "\<dots> \<le> daysBeforeMonth y (m' - 1)"
    using assms by (intro daysBeforeMonth_mono) simp_all
  finally show ?thesis using assms by simp
qed


lemma selected_after_today:
  assumes y: "y < 0 \<or> 99 < y"
    and m: "1 \<le> m" "m \<le> 12" and d: "1 \<le> d" "d \<le> DaysInMonth y m"
    and ty: "100 \<le> ty" and tm: "1 \<le> tm" "tm \<le> 12"
    and td: "1 \<le> td" "td \<le> DaysInMonth ty tm"
    and notFuture: "\<not> (ty, tm) < (y, m)"
  shows "(utcMidnightMs y m d > utcMidnightMs ty tm td) = ((ty, tm, td) < (y, m, d))"
proof -
  let ?sel = "DayFromYear y + daysBeforeMonth y (m - 1) + d - 1"
  let ?tod = "DayFromYear ty + daysBeforeMonth ty (tm - 1) + td - 1"
  have e1: "utcMidnightMs y m d = ?sel * 86400000"
    by (rule utcMidnightMs_day_number [OF y m])
  have e2: "utcMidnightMs ty tm td = ?tod * 86400000"
    using ty tm by (intro utcMidnightMs_day_number) simp_all
  have ms: "(utcMidnightMs y m d > utcMidnightMs ty tm td) = (?tod < ?sel)"
    unfolding e1 e2 by (rule mult_less_cancel_right_pos) simp
  from notFuture have le: "y < ty \<or> (y = ty \<and> m \<le> tm)" by auto
  show ?thesis
  proof (cases "y < ty")
    case True
    from day_number_earlier_year [OF True m d tm td] have "\<not> ?tod < ?sel" by simp
    with True show ?thesis unfolding ms by auto
  next
    case False
    with le have same: "y = ty" "m \<le> tm" by simp_all
    show ?thesis
    proof (cases "m < tm")
      case True
      from day_number_earlier_month [OF True m(1) tm(2) d(2) td(1)]
      have "\<not> ?tod < ?sel" unfolding same by simp
      with True same show ?thesis unfolding ms by auto
    next
      case False
      with same have "m = tm" by simp
      with same show ?thesis unfolding ms by auto
    qed
  qed
qed

text \<open>
  C9, as amended. With year and month supplied, the validator decides in this order: a
  month outside 1..12 is rejected as an invalid date; otherwise a year/month strictly
  after the current UTC year/month is rejected as a future date, with or without a day and
  also when the day is out of range; otherwise a given day outside 1..daysInMonth(year,
  month) is rejected as an invalid date; otherwise a given full date strictly after today
  is rejected as a future date; otherwise the selection is accepted. This holds for years
  that \<^verbatim>\<open>Date.UTC\<close> takes as they are (not 0..99) and that lie in the range of
  \<^verbatim>\<open>Date\<close>, with a clock that shows a valid date not before the year 100.
\<close>

theorem validateNotFutureSelection_in_order:
  assumes y: "y < 0 \<or> 99 < y" and range: "- 271820 \<le> y"
    and clock: "100 \<le> todayYear now" "todayYear now \<le> 275759"
      "1 \<le> todayMonth now" "todayMonth now \<le> 12"
      "1 \<le> todayDay now" "todayDay now \<le> DaysInMonth (todayYear now) (todayMonth now)"
  shows "validateNotFutureSelection now (Some y) (Some m) day =
     (if m < 1 \<or> 12 < m then Rejected INVALID_DATE ''month out of range (1-12)''
      else if (todayYear now, todayMonth now) < (y, m)
        then Rejected FUTURE_DATE ''Future months/years are not allowed''
      else (case day of
              None \<Rightarrow> Ok
            | Some d \<Rightarrow>
                if d < 1 \<or> DaysInMonth y m < d
                  then Rejected INVALID_DATE
                         (''day out of range (1-'' @ String_of (DaysInMonth y m) @ '')'')
                else if (todayYear now, todayMonth now, todayDay now) < (y, m, d)
                  then Rejected FUTURE_DATE ''Future dates are not allowed''
                else Ok))"
proof (cases "m < 1 \<or> 12 < m")
  case True
  then show ?thesis by (auto simp add: validateNotFutureSelection_def)
next
  case month: False
  then have m: "1 \<le> m" "m \<le> 12" by simp_all
  show ?thesis
  proof (cases "(todayYear now, todayMonth now) < (y, m)")
    case True
    with month show ?thesis by (auto simp add: validateNotFutureSelection_def)
  next
    case notFuture: False
    show ?thesis
    proof (cases day)
      case None
      with month notFuture show ?thesis by (auto simp add: validateNotFutureSelection_def)
    next
      case (Some d)
      note dim = getDaysInMonth_Gregorian [OF y m]
      show ?thesis
      proof (cases "d < 1 \<or> DaysInMonth y m < d")
        case True
        with month notFuture Some show ?thesis
          by (auto simp add: validateNotFutureSelection_def dim Let_def)
      next
        case False
        then have d: "1 \<le> d" "d \<le> DaysInMonth y m" by simp_all
        note cmp = selected_after_today [OF y m d clock(1,3,4,5,6) notFuture]
        from notFuture have nf: "\<not> (y > todayYear now
            \<or> (y = todayYear now \<and> m > todayMonth now))"
          by auto
        from month nf notFuture Some False show ?thesis
          unfolding validateNotFutureSelection_def
          by (simp add: dim Let_def cmp del: less_prod_simp)
      qed
    qed
  qed
qed

theorem validateNotFutureSelection_in_order_witness:
  "validateNotFutureSelection \<lparr>todayYear = 2026, todayMonth = 11, todayDay = 3\<rparr>
       (Some 2026) (Some 11) (Some 4)
     = Rejected FUTURE_DATE ''Future dates are not allowed''
   \<and> validateNotFutureSelection \<lparr>todayYear = 2026, todayMonth = 11, todayDay = 3\<rparr>
       (Some 2026) (Some 11) (Some 3) = Ok"
proof -
  let ?now = "\<lparr>todayYear = 2026, todayMonth = 11, todayDay = 3\<rparr>"
  have y: "(2026::int) < 0 \<or> 99 < (2026::int)" and range: "- 271820 \<le> (2026::int)" by simp_all
  have clock: "100 \<le> todayYear ?now" "todayYear ?now \<le> 275759"
      "1 \<le> todayMonth ?now" "todayMonth ?now \<le> 12"
      "1 \<le> todayDay ?now" "todayDay ?now \<le> DaysInMonth (todayYear ?now) (todayMonth ?now)"
    by (simp_all add: DaysInMonth_def)
  from validateNotFutureSelection_in_order [OF y range clock, of 11 "Some 4"]
    validateNotFutureSelection_in_order [OF y range clock, of 11 "Some 3"]
  show ?thesis by (simp add: DaysInMonth_def)
qed

text \<open>
  The claim as stated fails where both of its rejections apply: day 99 of January 2099 is
  outside the month, and the selection is rejected as a future date.
\<close>

theorem invalid_day_in_future_month_counterexample:
  "validateNotFutureSelection \<lparr>todayYear = 2026, todayMonth = 11, todayDay = 3\<rparr>
       (Some 2099) (Some 1) (Some 99)
     = Rejected FUTURE_DATE ''Future months/years are not allowed''
   \<and> DaysInMonth 2099 1 < 99"
  by (simp add: validateNotFutureSelection_def DaysInMonth_def)

end
